theory Spec2Isabelle
  imports Main "HOL-Library.Word" "HOL-Library.Signed_Division"
begin

section \<open>Machine integers of the C++ source\<close>

text \<open>
  The viewport code computes with \<^verbatim>\<open>int32\<close>, \<^verbatim>\<open>int16\<close>, \<^verbatim>\<open>uint16\<close> and \<^verbatim>\<open>uint8\<close>.
  They are modelled as machine words: addition, subtraction and multiplication wrap
  around as two's complement hardware does. Signed overflow is undefined in C++, so
  every theorem that relates a word result to a mathematical integer says which
  intermediate values have to be representable.
\<close>

type_synonym int32 = "32 word"
type_synonym int16 = "16 word"
type_synonym uint16 = "16 word"
type_synonym uint8 = "8 word"

text \<open>A mathematical integer is representable as \<^verbatim>\<open>int32\<close>.\<close>

definition fits_int32 :: "int \<Rightarrow> bool" where
  "fits_int32 k \<longleftrightarrow> - 2147483648 \<le> k \<and> k < 2147483648"

text \<open>The C++ operator \<^verbatim>\<open>/\<close> on \<^verbatim>\<open>int\<close>: the quotient is truncated towards zero.\<close>

definition int32_div :: "int32 \<Rightarrow> int32 \<Rightarrow> int32" where
  "int32_div a b = word_of_int (sint a sdiv sint b)"

text \<open>The C++ operator \<^verbatim>\<open>>>\<close> on a signed \<^verbatim>\<open>int\<close>: the arithmetic shift, which keeps the sign.\<close>

definition int32_shr :: "int32 \<Rightarrow> nat \<Rightarrow> int32" where
  "int32_shr a n = signed_drop_bit n a"

text \<open>Integer promotion of an unsigned 16-bit field and of a signed 16-bit field to \<^verbatim>\<open>int\<close>.\<close>

definition promote_u16 :: "uint16 \<Rightarrow> int32" where
  "promote_u16 w = ucast w"

definition promote_s16 :: "int16 \<Rightarrow> int32" where
  "promote_s16 w = scast w"

section \<open>Data model\<close>

text \<open>
  The four view orientations. The enumeration is declared in \<^verbatim>\<open>orientation.h\<close>; the code
  only ever stores one of the four directions, and \<^verbatim>\<open>NOT_REACHED()\<close> guards every switch
  against anything else.
\<close>

datatype ViewOrientation = VOR_NORTH | VOR_EAST | VOR_SOUTH | VOR_WEST

text \<open>
  Modelled from the spec: \<^verbatim>\<open>geometry.h\<close> is not among the sources. The visibility rectangle is a
  top-left corner with a width and a height; the corner is kept as \<^verbatim>\<open>int32\<close>, the type the
  comparisons of \<^verbatim>\<open>Collect\<close> cast it to, and the sizes as \<^verbatim>\<open>uint16\<close>, the type \<^verbatim>\<open>SetWindowSize\<close>
  takes them in.
\<close>

record Point =
  pt_x :: int32
  pt_y :: int32

record Rectangle =
  rect_base :: Point
  rect_width :: uint16
  rect_height :: uint16

text \<open>The members of class \<^verbatim>\<open>VoxelCollector\<close>; the derived collectors extend this record.\<close>

record VoxelCollector =
  xview :: int32
  yview :: int32
  zview :: int32
  tile_width :: uint16
  tile_height :: uint16
  orient :: ViewOrientation
  rect :: Rectangle

section \<open>Coordinate projection\<close>

text \<open>\<^verbatim>\<open>VoxelCollector::ComputeX\<close>, viewport.cpp lines 38--47.\<close>

definition ComputeX :: "'a VoxelCollector_scheme \<Rightarrow> int32 \<Rightarrow> int32 \<Rightarrow> int32" where
  "ComputeX vc x y =
     (case orient vc of
        VOR_NORTH \<Rightarrow> int32_shr (int32_div ((y - x) * promote_u16 (tile_width vc)) 2) 8
      | VOR_WEST \<Rightarrow> int32_shr (int32_div (- (x + y) * promote_u16 (tile_width vc)) 2) 8
      | VOR_SOUTH \<Rightarrow> int32_shr (int32_div ((x - y) * promote_u16 (tile_width vc)) 2) 8
      | VOR_EAST \<Rightarrow> int32_shr (int32_div ((x + y) * promote_u16 (tile_width vc)) 2) 8)"

text \<open>\<^verbatim>\<open>VoxelCollector::ComputeY\<close>, viewport.cpp lines 56--65.\<close>

definition ComputeY :: "'a VoxelCollector_scheme \<Rightarrow> int32 \<Rightarrow> int32 \<Rightarrow> int32 \<Rightarrow> int32" where
  "ComputeY vc x y z =
     (case orient vc of
        VOR_NORTH \<Rightarrow>
          int32_shr (int32_div ((x + y) * promote_u16 (tile_width vc)) 4
                     - z * promote_u16 (tile_height vc)) 8
      | VOR_WEST \<Rightarrow>
          int32_shr (int32_div ((y - x) * promote_u16 (tile_width vc)) 4
                     - z * promote_u16 (tile_height vc)) 8
      | VOR_SOUTH \<Rightarrow>
          int32_shr (int32_div (- (x + y) * promote_u16 (tile_width vc)) 4
                     - z * promote_u16 (tile_height vc)) 8
      | VOR_EAST \<Rightarrow>
          int32_shr (int32_div ((x - y) * promote_u16 (tile_width vc)) 4
                     - z * promote_u16 (tile_height vc)) 8)"

text \<open>\<^verbatim>\<open>VoxelCollector::SetWindowSize\<close>, lines 187--193.\<close>

definition SetWindowSize ::
  "'a VoxelCollector_scheme \<Rightarrow> int16 \<Rightarrow> int16 \<Rightarrow> uint16 \<Rightarrow> uint16 \<Rightarrow> 'a VoxelCollector_scheme" where
  "SetWindowSize vc xpos ypos w h =
     vc\<lparr>rect :=
          \<lparr>rect_base =
             \<lparr>pt_x = ComputeX vc (xview vc) (yview vc) + promote_s16 xpos,
              pt_y = ComputeY vc (xview vc) (yview vc) (zview vc) + promote_s16 ypos\<rparr>,
           rect_width = w, rect_height = h\<rparr>\<rparr>"

section \<open>World and sprites: the external collaborators\<close>

text \<open>
  Modelled from the spec: the ground-type enumeration is declared outside the given sources.
  The spec says only that a ground type may be invalid (empty); \<^verbatim>\<open>GTP_INVALID\<close> is that value.
\<close>

definition GTP_INVALID :: uint8 where
  "GTP_INVALID = 255"

record SurfaceVoxelData =
  ground_type :: uint8
  ground_slope :: uint8

text \<open>
  Modelled from the spec: the voxel classes are declared in \<^verbatim>\<open>map.h\<close>, which is not among the
  sources. A voxel is a tagged union over the voxel kinds; the surface kind carries a ground type
  and a slope. The collectors look at the surface kind only and send every other kind to the
  \<^verbatim>\<open>default\<close> branch.
\<close>

datatype Voxel = VT_SURFACE SurfaceVoxelData | VT_OTHER

text \<open>
  Modelled from the spec: class \<^verbatim>\<open>Sprite\<close> is declared in \<^verbatim>\<open>sprite_store.h\<close>, which is not among the
  sources. An image has the offsets of its origin, a width and a height, and a pixel-sample
  operation (\<^verbatim>\<open>Sprite::GetPixel\<close>), which is taken as a parameter.
\<close>

record Sprite =
  spr_xoffset :: int16
  spr_yoffset :: int16
  spr_width :: uint16
  spr_height :: uint16
  GetPixel :: "int16 \<Rightarrow> int16 \<Rightarrow> uint8"

text \<open>
  Modelled from the spec: the global \<^verbatim>\<open>_sprite_store\<close>, with its two look-ups taken as parameters;
  each returns an optional image, and a null pointer is \<open>None\<close>.
\<close>

record SpriteStore =
  GetSurfaceSprite :: "uint8 \<Rightarrow> uint8 \<Rightarrow> uint16 \<Rightarrow> ViewOrientation \<Rightarrow> Sprite option"
  GetCursorSprite :: "uint8 \<Rightarrow> uint16 \<Rightarrow> ViewOrientation \<Rightarrow> Sprite option"

text \<open>
  Modelled from the spec: a voxel stack (declared in \<^verbatim>\<open>map.h\<close>) is the ordered list of its voxels,
  from bottom to top, with the height of the lowest one and the count of the voxels. The member
  \<^verbatim>\<open>height\<close> that the loop of line 213 reads is that count.
\<close>

record VoxelStack =
  voxels :: "Voxel list"
  stack_base :: int16

definition stack_height :: "VoxelStack \<Rightarrow> nat" where
  "stack_height stack = length (voxels stack)"

text \<open>
  Modelled from the spec: the global \<^verbatim>\<open>_world\<close>, with its extent in tiles and the stack at each
  column taken as parameters.
\<close>

record World =
  GetXSize :: uint16
  GetYSize :: uint16
  GetStack :: "nat \<Rightarrow> nat \<Rightarrow> VoxelStack"

section \<open>The collecting cycle\<close>

text \<open>The two window tests of the innermost loop, lines 216 and 217.\<close>

definition below_window :: "'a VoxelCollector_scheme \<Rightarrow> int32 \<Rightarrow> bool" where
  "below_window vc north_y \<longleftrightarrow>
     pt_y (rect_base (rect vc)) + promote_u16 (rect_height (rect vc))
       \<le>s north_y - promote_u16 (tile_height vc)"

definition above_window :: "'a VoxelCollector_scheme \<Rightarrow> int32 \<Rightarrow> bool" where
  "above_window vc north_y \<longleftrightarrow>
     north_y + int32_div (promote_u16 (tile_width vc)) 2 + promote_u16 (tile_height vc)
       \<le>s pt_y (rect_base (rect vc))"

text \<open>The two column tests of the middle loop, lines 209 and 210.\<close>

definition left_of_window :: "'a VoxelCollector_scheme \<Rightarrow> int32 \<Rightarrow> bool" where
  "left_of_window vc north_x \<longleftrightarrow>
     north_x + int32_div (promote_u16 (tile_width vc)) 2 \<le>s pt_x (rect_base (rect vc))"

definition right_of_window :: "'a VoxelCollector_scheme \<Rightarrow> int32 \<Rightarrow> bool" where
  "right_of_window vc north_x \<longleftrightarrow>
     pt_x (rect_base (rect vc)) + promote_u16 (rect_width (rect vc))
       \<le>s north_x - int32_div (promote_u16 (tile_width vc)) 2"

text \<open>Height of the voxel at index \<open>count\<close> of a stack (line 214), and its screen position (line 215).\<close>

definition voxel_zpos :: "VoxelStack \<Rightarrow> nat \<Rightarrow> int32" where
  "voxel_zpos stack count = promote_s16 (stack_base stack) + of_nat count"

definition voxel_north_y ::
  "'a VoxelCollector_scheme \<Rightarrow> VoxelStack \<Rightarrow> int32 \<Rightarrow> int32 \<Rightarrow> nat \<Rightarrow> int32" where
  "voxel_north_y vc stack world_x world_y count =
     ComputeY vc world_x world_y (voxel_zpos stack count * 256)"

text \<open>
  The virtual method \<^verbatim>\<open>CollectVoxel\<close>: it gets the collector, the voxel, its world position
  and the screen position of its north corner, and returns the collector.
\<close>

type_synonym 'a visitor =
  "'a VoxelCollector_scheme \<Rightarrow> Voxel \<Rightarrow> int32 \<Rightarrow> int32 \<Rightarrow> int32 \<Rightarrow> int32 \<Rightarrow> int32
     \<Rightarrow> 'a VoxelCollector_scheme"

text \<open>The innermost loop of \<^verbatim>\<open>VoxelCollector::Collect\<close>, lines 213--220, from index \<open>count\<close> on.\<close>

function Collect_stack ::
  "'a visitor \<Rightarrow> 'a VoxelCollector_scheme \<Rightarrow> VoxelStack \<Rightarrow> nat \<Rightarrow> nat \<Rightarrow> int32 \<Rightarrow> int32 \<Rightarrow> int32
     \<Rightarrow> nat \<Rightarrow> 'a VoxelCollector_scheme" where
  "Collect_stack visit vc stack xpos ypos world_x world_y north_x count =
     (if count < stack_height stack then
        if below_window vc (voxel_north_y vc stack world_x world_y count) then
          Collect_stack visit vc stack xpos ypos world_x world_y north_x (Suc count)
        else if above_window vc (voxel_north_y vc stack world_x world_y count) then vc
        else
          Collect_stack visit
            (visit vc (voxels stack ! count) (of_nat xpos) (of_nat ypos) (voxel_zpos stack count)
               north_x (voxel_north_y vc stack world_x world_y count))
            stack xpos ypos world_x world_y north_x (Suc count)
      else vc)"
  by pat_completeness auto
termination
  by (relation "measure (\<lambda>(visit, vc, stack, xpos, ypos, world_x, world_y, north_x, count).
        stack_height stack - count)") auto

declare Collect_stack.simps [simp del]

text \<open>World coordinates of a column, lines 205 and 207.\<close>

definition column_world_x :: "'a VoxelCollector_scheme \<Rightarrow> nat \<Rightarrow> int32" where
  "column_world_x vc xpos =
     (of_nat xpos + (if orient vc = VOR_SOUTH \<or> orient vc = VOR_WEST then 1 else 0)) * 256"

definition column_world_y :: "'a VoxelCollector_scheme \<Rightarrow> nat \<Rightarrow> int32" where
  "column_world_y vc ypos =
     (of_nat ypos + (if orient vc = VOR_SOUTH \<or> orient vc = VOR_EAST then 1 else 0)) * 256"

text \<open>The middle loop, lines 206--221, from \<open>ypos\<close> on.\<close>

function Collect_ypos ::
  "World \<Rightarrow> 'a visitor \<Rightarrow> 'a VoxelCollector_scheme \<Rightarrow> nat \<Rightarrow> int32 \<Rightarrow> nat
     \<Rightarrow> 'a VoxelCollector_scheme" where
  "Collect_ypos world visit vc xpos world_x ypos =
     (if ypos < unat (GetYSize world) then
        if left_of_window vc (ComputeX vc world_x (column_world_y vc ypos)) then
          Collect_ypos world visit vc xpos world_x (Suc ypos)
        else if right_of_window vc (ComputeX vc world_x (column_world_y vc ypos)) then
          Collect_ypos world visit vc xpos world_x (Suc ypos)
        else
          Collect_ypos world visit
            (Collect_stack visit vc (GetStack world xpos ypos) xpos ypos world_x
               (column_world_y vc ypos) (ComputeX vc world_x (column_world_y vc ypos)) 0)
            xpos world_x (Suc ypos)
      else vc)"
  by pat_completeness auto
termination
  by (relation "measure (\<lambda>(world, visit, vc, xpos, world_x, ypos). unat (GetYSize world) - ypos)")
    auto

declare Collect_ypos.simps [simp del]

text \<open>The outer loop, lines 204--222, from \<open>xpos\<close> on.\<close>

function Collect_xpos ::
  "World \<Rightarrow> 'a visitor \<Rightarrow> 'a VoxelCollector_scheme \<Rightarrow> nat \<Rightarrow> 'a VoxelCollector_scheme" where
  "Collect_xpos world visit vc xpos =
     (if xpos < unat (GetXSize world) then
        Collect_xpos world visit
          (Collect_ypos world visit vc xpos (column_world_x vc xpos) 0) (Suc xpos)
      else vc)"
  by pat_completeness auto
termination
  by (relation "measure (\<lambda>(world, visit, vc, xpos). unat (GetXSize world) - xpos)") auto

declare Collect_xpos.simps [simp del]

text \<open>\<^verbatim>\<open>VoxelCollector::Collect\<close>, lines 202--223.\<close>

definition Collect :: "World \<Rightarrow> 'a visitor \<Rightarrow> 'a VoxelCollector_scheme \<Rightarrow> 'a VoxelCollector_scheme" where
  "Collect world visit vc = Collect_xpos world visit vc 0"

section \<open>The sprite collector\<close>

record DrawData =
  dd_spr :: Sprite
  dd_cursor :: "Sprite option"
  dd_base :: Point

text \<open>
  \<^verbatim>\<open>std::multimap<int32, DrawData>\<close>: the entries in ascending order of their signed keys;
  an entry is inserted after the entries with the same key.
\<close>

type_synonym DrawImages = "(int32 \<times> DrawData) list"

fun multimap_insert :: "int32 \<times> DrawData \<Rightarrow> DrawImages \<Rightarrow> DrawImages" where
  "multimap_insert p [] = [p]"
| "multimap_insert p (q # qs) =
     (if fst p <s fst q then p # q # qs else q # multimap_insert p qs)"

record SpriteCollector = VoxelCollector +
  draw_images :: DrawImages
  xoffset :: int16
  yoffset :: int16
  draw_mouse_cursor :: bool
  mousex :: uint16
  mousey :: uint16
  mousez :: uint8

text \<open>The constructor, lines 228--233; the members it leaves unset are zero here.\<close>

definition SpriteCollector_new ::
  "int32 \<Rightarrow> int32 \<Rightarrow> int32 \<Rightarrow> uint16 \<Rightarrow> uint16 \<Rightarrow> ViewOrientation \<Rightarrow> SpriteCollector" where
  "SpriteCollector_new xv yv zv tw th ori =
     \<lparr>xview = xv, yview = yv, zview = zv, tile_width = tw, tile_height = th, orient = ori,
      rect = \<lparr>rect_base = \<lparr>pt_x = 0, pt_y = 0\<rparr>, rect_width = 0, rect_height = 0\<rparr>,
      draw_images = [], xoffset = 0, yoffset = 0, draw_mouse_cursor = False,
      mousex = 0, mousey = 0, mousez = 0\<rparr>"

definition SetXYOffset :: "SpriteCollector \<Rightarrow> int16 \<Rightarrow> int16 \<Rightarrow> SpriteCollector" where
  "SetXYOffset sc xo yo = sc\<lparr>xoffset := xo, yoffset := yo\<rparr>"

definition SetMouseCursor :: "SpriteCollector \<Rightarrow> uint16 \<Rightarrow> uint16 \<Rightarrow> uint8 \<Rightarrow> SpriteCollector" where
  "SetMouseCursor sc xpos ypos zpos =
     sc\<lparr>draw_mouse_cursor := True, mousex := xpos, mousey := ypos, mousez := zpos\<rparr>"

text \<open>
  The key that \<^verbatim>\<open>SpriteCollector::CollectVoxel\<close> computes for a draw command:
  lines 272, 273 and 285.
\<close>

definition SpriteCollector_key :: "ViewOrientation \<Rightarrow> int32 \<Rightarrow> int32 \<Rightarrow> int32 \<Rightarrow> int32" where
  "SpriteCollector_key ori xpos ypos zpos =
     (let sx = (if ori = VOR_NORTH \<or> ori = VOR_EAST then 256 else - 256);
          sy = (if ori = VOR_NORTH \<or> ori = VOR_WEST then 256 else - 256)
      in sx * xpos + sy * ypos + zpos * 256)"

text \<open>\<^verbatim>\<open>SpriteCollector::CollectVoxel\<close>, lines 270--300.\<close>

definition SpriteCollector_CollectVoxel ::
  "SpriteStore \<Rightarrow> SpriteCollector \<Rightarrow> Voxel \<Rightarrow> int32 \<Rightarrow> int32 \<Rightarrow> int32 \<Rightarrow> int32 \<Rightarrow> int32
     \<Rightarrow> SpriteCollector" where
  "SpriteCollector_CollectVoxel store sc voxel xpos ypos zpos xnorth ynorth =
     (case voxel of
        VT_SURFACE svd \<Rightarrow>
          if ground_type svd = GTP_INVALID then sc
          else
            (case GetSurfaceSprite store (ground_type svd) (ground_slope svd) (tile_width sc)
                    (orient sc) of
               None \<Rightarrow> sc
             | Some spr \<Rightarrow>
                 let mspr =
                       (if draw_mouse_cursor sc \<and> xpos = promote_u16 (mousex sc)
                           \<and> ypos = promote_u16 (mousey sc) \<and> zpos = ucast (mousez sc)
                        then GetCursorSprite store (ground_slope svd) (tile_width sc) (orient sc)
                        else None);
                     p = (SpriteCollector_key (orient sc) xpos ypos zpos,
                          \<lparr>dd_spr = spr, dd_cursor = mspr,
                           dd_base =
                             \<lparr>pt_x = promote_s16 (xoffset sc) + xnorth + promote_s16 (spr_xoffset spr)
                                      - pt_x (rect_base (rect sc)),
                              pt_y = promote_s16 (yoffset sc) + ynorth + promote_s16 (spr_yoffset spr)
                                      - pt_y (rect_base (rect sc))\<rparr>\<rparr>)
                 in sc\<lparr>draw_images := multimap_insert p (draw_images sc)\<rparr>)
      | VT_OTHER \<Rightarrow> sc)"

section \<open>The pixel finder\<close>

record PixelFinder = VoxelCollector +
  found :: bool
  distance :: int32
  pixel :: uint8
  xvoxel :: uint16
  yvoxel :: uint16
  zvoxel :: uint8

text \<open>The constructor, lines 303--312.\<close>

definition PixelFinder_new ::
  "int32 \<Rightarrow> int32 \<Rightarrow> int32 \<Rightarrow> uint16 \<Rightarrow> uint16 \<Rightarrow> ViewOrientation \<Rightarrow> PixelFinder" where
  "PixelFinder_new xv yv zv tw th ori =
     \<lparr>xview = xv, yview = yv, zview = zv, tile_width = tw, tile_height = th, orient = ori,
      rect = \<lparr>rect_base = \<lparr>pt_x = 0, pt_y = 0\<rparr>, rect_width = 0, rect_height = 0\<rparr>,
      found = False, distance = 0, pixel = 0, xvoxel = 0, yvoxel = 0, zvoxel = 0\<rparr>"

text \<open>The distance that \<^verbatim>\<open>PixelFinder::CollectVoxel\<close> computes: lines 329, 330 and 338 (and 349).\<close>

definition PixelFinder_dist :: "ViewOrientation \<Rightarrow> int32 \<Rightarrow> int32 \<Rightarrow> int32 \<Rightarrow> int32" where
  "PixelFinder_dist ori xpos ypos zpos =
     (let sx = (if ori = VOR_NORTH \<or> ori = VOR_EAST then 256 else - 256);
          sy = (if ori = VOR_NORTH \<or> ori = VOR_WEST then 256 else - 256)
      in sx * xpos + sy * ypos + zpos * 256)"

text \<open>
  The first part of \<^verbatim>\<open>PixelFinder::CollectVoxel\<close>, lines 332--344: every way out of the function
  before line 346 is \<open>None\<close>; otherwise the result is the sprite and the two offsets with which
  line 346 calls \<^verbatim>\<open>GetPixel\<close>. The offsets are \<^verbatim>\<open>int16\<close>: the difference is cut to 16 bits.
\<close>

definition PixelFinder_probe ::
  "SpriteStore \<Rightarrow> PixelFinder \<Rightarrow> Voxel \<Rightarrow> int32 \<Rightarrow> int32 \<Rightarrow> int32 \<Rightarrow> int32 \<Rightarrow> int32
     \<Rightarrow> (Sprite \<times> int16 \<times> int16) option" where
  "PixelFinder_probe store pf voxel xpos ypos zpos xnorth ynorth =
     (case voxel of
        VT_SURFACE svd \<Rightarrow>
          if ground_type svd = GTP_INVALID then None
          else
            (case GetSurfaceSprite store (ground_type svd) (ground_slope svd) (tile_width pf)
                    (orient pf) of
               None \<Rightarrow> None
             | Some spr \<Rightarrow>
                 if found pf \<and> PixelFinder_dist (orient pf) xpos ypos zpos \<le>s distance pf then None
                 else
                   let xo = (ucast (pt_x (rect_base (rect pf)) - xnorth
                                     - promote_s16 (spr_xoffset spr)) :: int16);
                       yo = (ucast (pt_y (rect_base (rect pf)) - ynorth
                                     - promote_s16 (spr_yoffset spr)) :: int16)
                   in if xo <s 0 \<or> yo <s 0 then None else Some (spr, xo, yo))
      | VT_OTHER \<Rightarrow> None)"

text \<open>\<^verbatim>\<open>PixelFinder::CollectVoxel\<close>, lines 327--362: the part above, then lines 346--356.\<close>

definition PixelFinder_CollectVoxel ::
  "SpriteStore \<Rightarrow> PixelFinder \<Rightarrow> Voxel \<Rightarrow> int32 \<Rightarrow> int32 \<Rightarrow> int32 \<Rightarrow> int32 \<Rightarrow> int32
     \<Rightarrow> PixelFinder" where
  "PixelFinder_CollectVoxel store pf voxel xpos ypos zpos xnorth ynorth =
     (case PixelFinder_probe store pf voxel xpos ypos zpos xnorth ynorth of
        None \<Rightarrow> pf
      | Some (spr, xo, yo) \<Rightarrow>
          let px = GetPixel spr xo yo
          in if px = 0 then pf
             else pf\<lparr>distance := PixelFinder_dist (orient pf) xpos ypos zpos, found := True,
                     xvoxel := ucast xpos, yvoxel := ucast ypos, zvoxel := ucast zpos,
                     pixel := px\<rparr>)"

section \<open>The viewport\<close>

datatype MouseMode = MM_INACTIVE | MM_TILE_TERRAFORM

record Point16 =
  p16_x :: int16
  p16_y :: int16

text \<open>
  The members of class \<^verbatim>\<open>Viewport\<close> that the code below reads or writes, with the position and
  the unsigned size of its base class \<^verbatim>\<open>Window\<close>. \<open>redraw_signals\<close> counts the calls of
  \<^verbatim>\<open>MarkDirty\<close>.
\<close>

record Viewport =
  win_x :: int32
  win_y :: int32
  win_width :: "32 word"
  win_height :: "32 word"
  vp_xview :: int32
  vp_yview :: int32
  vp_zview :: int32
  vp_tile_width :: uint16
  vp_tile_height :: uint16
  orientation :: ViewOrientation
  mouse_mode :: MouseMode
  mouse_pos :: Point16
  mouse_state :: uint8
  vp_xvoxel :: uint16
  vp_yvoxel :: uint16
  vp_zvoxel :: uint8
  redraw_signals :: nat

text \<open>
  Modelled from the spec: \<^verbatim>\<open>Window::MarkDirty\<close> is defined outside the given sources. The spec
  calls it the redraw signal to the windowing layer; here every call is counted.
\<close>

definition MarkDirty :: "Viewport \<Rightarrow> Viewport" where
  "MarkDirty vp = vp\<lparr>redraw_signals := Suc (redraw_signals vp)\<rparr>"

text \<open>The constructor, lines 368--386.\<close>

definition Viewport_new :: "World \<Rightarrow> int32 \<Rightarrow> int32 \<Rightarrow> 32 word \<Rightarrow> 32 word \<Rightarrow> Viewport" where
  "Viewport_new world x y w h =
     \<lparr>win_x = x, win_y = y, win_width = w, win_height = h,
      vp_xview = int32_div (promote_u16 (GetXSize world) * 256) 2,
      vp_yview = int32_div (promote_u16 (GetYSize world) * 256) 2,
      vp_zview = 8 * 256,
      vp_tile_width = 64, vp_tile_height = 16, orientation = VOR_NORTH,
      mouse_mode = MM_INACTIVE, mouse_pos = \<lparr>p16_x = 0, p16_y = 0\<rparr>, mouse_state = 0,
      vp_xvoxel = 0, vp_yvoxel = 0, vp_zvoxel = 0, redraw_signals = 0\<rparr>"

text \<open>
  The pixel finder that \<^verbatim>\<open>Viewport::ComputeCursorPosition\<close> builds and runs, lines 419--423.
  The window's width is unsigned, so half of it is an unsigned quotient.
\<close>

definition cursor_collector :: "World \<Rightarrow> SpriteStore \<Rightarrow> Viewport \<Rightarrow> PixelFinder" where
  "cursor_collector world store vp =
     (let xp = (ucast (promote_s16 (p16_x (mouse_pos vp)) - win_width vp div 2) :: int16);
          yp = (ucast (promote_s16 (p16_y (mouse_pos vp)) - win_height vp div 2) :: int16)
      in Collect world (PixelFinder_CollectVoxel store)
           (SetWindowSize
              (PixelFinder_new (vp_xview vp) (vp_yview vp) (vp_zview vp) (vp_tile_width vp)
                 (vp_tile_height vp) (orientation vp))
              xp yp 1 1))"

text \<open>\<^verbatim>\<open>Viewport::ComputeCursorPosition\<close>, lines 417--431.\<close>

definition ComputeCursorPosition :: "World \<Rightarrow> SpriteStore \<Rightarrow> Viewport \<Rightarrow> Viewport" where
  "ComputeCursorPosition world store vp =
     (let collector = cursor_collector world store vp
      in if found collector \<and>
            (xvoxel collector \<noteq> vp_xvoxel vp \<or> yvoxel collector \<noteq> vp_yvoxel vp
             \<or> zvoxel collector \<noteq> vp_zvoxel vp)
         then MarkDirty (vp\<lparr>vp_xvoxel := xvoxel collector, vp_yvoxel := yvoxel collector,
                            vp_zvoxel := zvoxel collector\<rparr>)
         else vp)"

text \<open>
  Modelled from the spec: the values of the orientations are declared in \<^verbatim>\<open>orientation.h\<close>,
  which is not among the sources. The spec names the four directions in the order N, E, S, W and
  lets a rotation step by one modulo 4; so they are numbered 0 to 3 in this order, and
  \<^verbatim>\<open>VOR_NUM_ORIENT\<close> is 4.
\<close>

fun ViewOrientation_to_int :: "ViewOrientation \<Rightarrow> int32" where
  "ViewOrientation_to_int VOR_NORTH = 0"
| "ViewOrientation_to_int VOR_EAST = 1"
| "ViewOrientation_to_int VOR_SOUTH = 2"
| "ViewOrientation_to_int VOR_WEST = 3"

definition VOR_NUM_ORIENT :: int32 where
  "VOR_NUM_ORIENT = 4"

text \<open>
  The cast of line 439 back to the enumeration. \<^verbatim>\<open>Rotate\<close> casts a remainder modulo 4 of a
  positive sum, a value from 0 to 3.
\<close>

definition ViewOrientation_of_int :: "int32 \<Rightarrow> ViewOrientation" where
  "ViewOrientation_of_int n =
     (if n = 0 then VOR_NORTH else if n = 1 then VOR_EAST else if n = 2 then VOR_SOUTH
      else VOR_WEST)"

text \<open>The C++ operator \<^verbatim>\<open>%\<close> on \<^verbatim>\<open>int\<close>: the remainder of the truncated division.\<close>

definition int32_mod :: "int32 \<Rightarrow> int32 \<Rightarrow> int32" where
  "int32_mod a b = word_of_int (sint a smod sint b)"

text \<open>\<^verbatim>\<open>Viewport::Rotate\<close>, lines 437--442.\<close>

definition Rotate :: "World \<Rightarrow> SpriteStore \<Rightarrow> Viewport \<Rightarrow> int32 \<Rightarrow> Viewport" where
  "Rotate world store vp direction =
     MarkDirty
       (ComputeCursorPosition world store
          (vp\<lparr>orientation :=
                ViewOrientation_of_int
                  (int32_mod
                     (ViewOrientation_to_int (orientation vp) + VOR_NUM_ORIENT
                        + (if 0 <s direction then 1 else - 1))
                     VOR_NUM_ORIENT)\<rparr>))"

text \<open>
  Modelled from the spec: \<^verbatim>\<open>Clamp\<close> is defined in \<^verbatim>\<open>math_func.h\<close>, which is not among the sources.
  The spec says that the view center is clamped to the interval between the two bounds.
\<close>

definition Clamp :: "int32 \<Rightarrow> int32 \<Rightarrow> int32 \<Rightarrow> int32" where
  "Clamp a lo hi = (if a \<le>s lo then lo else if hi \<le>s a then hi else a)"

text \<open>
  The view center that \<^verbatim>\<open>Viewport::MoveViewport\<close> computes before clamping, lines 451--475.
\<close>

definition pan_target :: "Viewport \<Rightarrow> int32 \<Rightarrow> int32 \<Rightarrow> int32 \<times> int32" where
  "pan_target vp dx dy =
     (let tw = promote_u16 (vp_tile_width vp)
      in case orientation vp of
           VOR_NORTH \<Rightarrow>
             (vp_xview vp + int32_div (dx * 256) tw - int32_div (dy * 512) tw,
              vp_yview vp - int32_div (dx * 256) tw - int32_div (dy * 512) tw)
         | VOR_EAST \<Rightarrow>
             (vp_xview vp - int32_div (dx * 256) tw - int32_div (dy * 512) tw,
              vp_yview vp - int32_div (dx * 256) tw + int32_div (dy * 512) tw)
         | VOR_SOUTH \<Rightarrow>
             (vp_xview vp - int32_div (dx * 256) tw + int32_div (dy * 512) tw,
              vp_yview vp + int32_div (dx * 256) tw + int32_div (dy * 512) tw)
         | VOR_WEST \<Rightarrow>
             (vp_xview vp + int32_div (dx * 256) tw + int32_div (dy * 512) tw,
              vp_yview vp + int32_div (dx * 256) tw - int32_div (dy * 512) tw))"

text \<open>
  \<^verbatim>\<open>Viewport::MoveViewport\<close>, lines 449--484. A tile width of zero makes the divisions of
  lines 454--470 trap; that outcome is \<open>None\<close>.
\<close>

definition MoveViewport :: "World \<Rightarrow> Viewport \<Rightarrow> int32 \<Rightarrow> int32 \<Rightarrow> Viewport option" where
  "MoveViewport world vp dx dy =
     (if vp_tile_width vp = 0 then None
      else
        let new_x = Clamp (fst (pan_target vp dx dy)) 0 (promote_u16 (GetXSize world) * 256);
            new_y = Clamp (snd (pan_target vp dx dy)) 0 (promote_u16 (GetYSize world) * 256)
        in if new_x \<noteq> vp_xview vp \<or> new_y \<noteq> vp_yview vp
           then Some (MarkDirty (vp\<lparr>vp_xview := new_x, vp_yview := new_y\<rparr>))
           else Some vp)"

section \<open>Definitions for the statements\<close>

subsection \<open>Projection\<close>

text \<open>
  The sign combinations of the specification, on mathematical integers: NORTH \<open>y - x\<close>, WEST
  \<open>-(x + y)\<close>, SOUTH \<open>x - y\<close>, EAST \<open>x + y\<close> for the horizontal output, and NORTH \<open>x + y\<close>, WEST
  \<open>y - x\<close>, SOUTH \<open>-(x + y)\<close>, EAST \<open>x - y\<close> for the vertical one.
\<close>

definition spec_sign_x :: "ViewOrientation \<Rightarrow> int \<Rightarrow> int \<Rightarrow> int" where
  "spec_sign_x ori x y =
     (case ori of VOR_NORTH \<Rightarrow> y - x | VOR_WEST \<Rightarrow> - (x + y) | VOR_SOUTH \<Rightarrow> x - y
      | VOR_EAST \<Rightarrow> x + y)"

definition spec_sign_y :: "ViewOrientation \<Rightarrow> int \<Rightarrow> int \<Rightarrow> int" where
  "spec_sign_y ori x y =
     (case ori of VOR_NORTH \<Rightarrow> x + y | VOR_WEST \<Rightarrow> y - x | VOR_SOUTH \<Rightarrow> - (x + y)
      | VOR_EAST \<Rightarrow> x - y)"

text \<open>
  No signed operation of \<^verbatim>\<open>ComputeX\<close> overflows: the sum or difference of the coordinates, its
  negation where the orientation negates, and the product with the tile width are representable.
\<close>

definition ComputeX_defined :: "'a VoxelCollector_scheme \<Rightarrow> int32 \<Rightarrow> int32 \<Rightarrow> bool" where
  "ComputeX_defined vc x y \<longleftrightarrow>
     (orient vc = VOR_WEST \<longrightarrow> fits_int32 (sint x + sint y)) \<and>
     fits_int32 (spec_sign_x (orient vc) (sint x) (sint y)) \<and>
     fits_int32 (spec_sign_x (orient vc) (sint x) (sint y) * uint (tile_width vc))"

text \<open>The same for \<^verbatim>\<open>ComputeY\<close>, with the product of height and tile height and the difference.\<close>

definition ComputeY_defined :: "'a VoxelCollector_scheme \<Rightarrow> int32 \<Rightarrow> int32 \<Rightarrow> int32 \<Rightarrow> bool" where
  "ComputeY_defined vc x y z \<longleftrightarrow>
     (orient vc = VOR_SOUTH \<longrightarrow> fits_int32 (sint x + sint y)) \<and>
     fits_int32 (spec_sign_y (orient vc) (sint x) (sint y)) \<and>
     fits_int32 (spec_sign_y (orient vc) (sint x) (sint y) * uint (tile_width vc)) \<and>
     fits_int32 (sint z * uint (tile_height vc)) \<and>
     fits_int32 ((spec_sign_y (orient vc) (sint x) (sint y) * uint (tile_width vc)) sdiv 4
                 - sint z * uint (tile_height vc))"

text \<open>A collector with the tile size of the viewport's constructor, for concrete instances.\<close>

definition example_collector :: "ViewOrientation \<Rightarrow> VoxelCollector" where
  "example_collector ori =
     \<lparr>xview = 0, yview = 0, zview = 0, tile_width = 64, tile_height = 16, orient = ori,
      rect = \<lparr>rect_base = \<lparr>pt_x = 0, pt_y = 0\<rparr>, rect_width = 1, rect_height = 1\<rparr>\<rparr>"

subsection \<open>Depth keys\<close>

text \<open>
  The depth key as the claim words it: \<open>sign_x\<close> and \<open>sign_y\<close> are plus or minus 256, and both are
  multiplied by 256 once more.
\<close>


definition claimed_depth_key :: "ViewOrientation \<Rightarrow> int \<Rightarrow> int \<Rightarrow> int \<Rightarrow> int" where
  "claimed_depth_key ori xpos ypos zpos =
     (let sign_x = (if ori = VOR_NORTH \<or> ori = VOR_EAST then 256 else - 256);
          sign_y = (if ori = VOR_NORTH \<or> ori = VOR_WEST then 256 else - 256)
      in sign_x * 256 * xpos + sign_y * 256 * ypos + 256 * zpos)"

text \<open>The depth key with the signed factor 256 applied once to \<open>xpos\<close> and to \<open>ypos\<close>.\<close>

definition depth_key :: "ViewOrientation \<Rightarrow> int \<Rightarrow> int \<Rightarrow> int \<Rightarrow> int" where
  "depth_key ori xpos ypos zpos =
     (let sign_x = (if ori = VOR_NORTH \<or> ori = VOR_EAST then 256 else - 256);
          sign_y = (if ori = VOR_NORTH \<or> ori = VOR_WEST then 256 else - 256)
      in sign_x * xpos + sign_y * ypos + 256 * zpos)"

text \<open>
  Positions below 2097152 in absolute value: no product and no sum of the key overflows.
\<close>

definition depth_key_defined :: "int32 \<Rightarrow> int32 \<Rightarrow> int32 \<Rightarrow> bool" where
  "depth_key_defined xpos ypos zpos \<longleftrightarrow>
     \<bar>sint xpos\<bar> < 2097152 \<and> \<bar>sint ypos\<bar> < 2097152 \<and> \<bar>sint zpos\<bar> < 2097152"

text \<open>A sprite of one opaque pixel, a store that has it for every ground, and a surface voxel.\<close>

definition example_sprite :: Sprite where
  "example_sprite =
     \<lparr>spr_xoffset = 0, spr_yoffset = 0, spr_width = 1, spr_height = 1, GetPixel = (\<lambda>x y. 1)\<rparr>"

definition example_store :: SpriteStore where
  "example_store =
     \<lparr>GetSurfaceSprite = (\<lambda>gtype slope tw ori. Some example_sprite),
      GetCursorSprite = (\<lambda>slope tw ori. None)\<rparr>"

definition example_voxel :: Voxel where
  "example_voxel = VT_SURFACE \<lparr>ground_type = 0, ground_slope = 0\<rparr>"

text \<open>A pixel finder that has found a result at distance 0.\<close>

definition found_finder :: PixelFinder where
  "found_finder = (PixelFinder_new 0 0 0 64 16 VOR_SOUTH)\<lparr>found := True, distance := 0\<rparr>"

subsection \<open>Panning\<close>

text \<open>
  A pan does not trigger the boundary clamp: \<^verbatim>\<open>Clamp\<close> returns both coordinates of the computed
  view center as they are.
\<close>

definition pan_unclamped :: "World \<Rightarrow> Viewport \<Rightarrow> int32 \<Rightarrow> int32 \<Rightarrow> bool" where
  "pan_unclamped world vp dx dy \<longleftrightarrow>
     Clamp (fst (pan_target vp dx dy)) 0 (promote_u16 (GetXSize world) * 256)
       = fst (pan_target vp dx dy) \<and>
     Clamp (snd (pan_target vp dx dy)) 0 (promote_u16 (GetYSize world) * 256)
       = snd (pan_target vp dx dy)"

text \<open>The two products of a pan, \<^verbatim>\<open>dx * 256\<close> and \<^verbatim>\<open>dy * 512\<close>, do not overflow.\<close>

definition pan_defined :: "int32 \<Rightarrow> int32 \<Rightarrow> bool" where
  "pan_defined dx dy \<longleftrightarrow> fits_int32 (sint dx * 256) \<and> fits_int32 (sint dy * 512)"

text \<open>A world of two by two columns of one voxel, and a viewport on it.\<close>

definition example_world :: World where
  "example_world =
     \<lparr>GetXSize = 2, GetYSize = 2,
      GetStack = (\<lambda>xpos ypos. \<lparr>voxels = [example_voxel], stack_base = 0\<rparr>)\<rparr>"

definition example_viewport :: "int32 \<Rightarrow> int32 \<Rightarrow> ViewOrientation \<Rightarrow> Viewport" where
  "example_viewport xv yv ori =
     (Viewport_new example_world 0 0 640 480)\<lparr>vp_xview := xv, vp_yview := yv, orientation := ori\<rparr>"

subsection \<open>Voxels without a ground\<close>

text \<open>A surface voxel whose ground type is invalid.\<close>

definition invalid_ground :: "Voxel \<Rightarrow> bool" where
  "invalid_ground voxel =
     (case voxel of VT_SURFACE svd \<Rightarrow> ground_type svd = GTP_INVALID | VT_OTHER \<Rightarrow> False)"

text \<open>
  Every voxel of the world is such a voxel. A world whose only voxel is a surface voxel with an
  invalid ground type is one of these worlds.
\<close>

definition world_all_invalid :: "World \<Rightarrow> bool" where
  "world_all_invalid world \<longleftrightarrow>
     (\<forall>xpos < unat (GetXSize world). \<forall>ypos < unat (GetYSize world).
        \<forall>voxel \<in> set (voxels (GetStack world xpos ypos)). invalid_ground voxel)"

text \<open>The world of one column with one voxel, a surface voxel with an invalid ground type.\<close>

definition invalid_world :: World where
  "invalid_world =
     \<lparr>GetXSize = 1, GetYSize = 1,
      GetStack = (\<lambda>xpos ypos.
        \<lparr>voxels = [VT_SURFACE \<lparr>ground_type = GTP_INVALID, ground_slope = 0\<rparr>], stack_base = 0\<rparr>)\<rparr>"

text \<open>A visitor that leaves the collector as it is on the voxels of a set.\<close>

definition idle_on :: "'a visitor \<Rightarrow> Voxel set \<Rightarrow> bool" where
  "idle_on visit S \<longleftrightarrow> (\<forall>voxel \<in> S. \<forall>vc a b c d e. visit vc voxel a b c d e = vc)"

subsection \<open>The pixel finder over a sequence of visits\<close>

text \<open>One call of \<^verbatim>\<open>CollectVoxel\<close>: the voxel, its position, and the screen position of its corner.\<close>

type_synonym visit = "Voxel \<times> int32 \<times> int32 \<times> int32 \<times> int32 \<times> int32"

definition PixelFinder_visit :: "SpriteStore \<Rightarrow> visit \<Rightarrow> PixelFinder \<Rightarrow> PixelFinder" where
  "PixelFinder_visit store v pf =
     (case v of (voxel, xpos, ypos, zpos, xnorth, ynorth) \<Rightarrow>
        PixelFinder_CollectVoxel store pf voxel xpos ypos zpos xnorth ynorth)"

text \<open>The calls that a traversal makes, in its order.\<close>

definition PixelFinder_visits :: "SpriteStore \<Rightarrow> PixelFinder \<Rightarrow> visit list \<Rightarrow> PixelFinder" where
  "PixelFinder_visits store pf vs = fold (PixelFinder_visit store) vs pf"

text \<open>The depth key of a visit.\<close>

definition visit_key :: "PixelFinder \<Rightarrow> visit \<Rightarrow> int32" where
  "visit_key pf v =
     (case v of (voxel, xpos, ypos, zpos, xnorth, ynorth) \<Rightarrow>
        PixelFinder_dist (orient pf) xpos ypos zpos)"

text \<open>
  The visited voxel is a surface voxel with a resolved sprite that has a non-transparent pixel
  under the probe: leaving aside what has been found so far, \<^verbatim>\<open>GetPixel\<close> is called and
  returns a value other than zero.
\<close>

definition opaque_under_probe :: "SpriteStore \<Rightarrow> PixelFinder \<Rightarrow> visit \<Rightarrow> bool" where
  "opaque_under_probe store pf v =
     (case v of (voxel, xpos, ypos, zpos, xnorth, ynorth) \<Rightarrow>
        (case PixelFinder_probe store (pf\<lparr>found := False\<rparr>) voxel xpos ypos zpos xnorth ynorth of
           None \<Rightarrow> False
         | Some (spr, xo, yo) \<Rightarrow> GetPixel spr xo yo \<noteq> 0))"

text \<open>Two collectors agree on the members that the traversal and the probes read.\<close>

definition same_view :: "'a VoxelCollector_scheme \<Rightarrow> 'b VoxelCollector_scheme \<Rightarrow> bool" where
  "same_view a b \<longleftrightarrow>
     orient a = orient b \<and> tile_width a = tile_width b \<and> tile_height a = tile_height b \<and>
     rect a = rect b"

text \<open>A result has been found whose distance is at least \<open>k\<close>.\<close>

definition nearer_found :: "int32 \<Rightarrow> PixelFinder \<Rightarrow> bool" where
  "nearer_found k pf \<longleftrightarrow> found pf \<and> k \<le>s distance pf"

text \<open>
  Two visits with the same key seen from the north, (0, 1, 0) before (1, 0, 0) as the traversal
  goes, drawn at the same place; and a pixel finder with its probe at a given screen position.
\<close>

definition tie_first :: visit where
  "tie_first = (example_voxel, 0, 1, 0, 0, 0)"

definition tie_second :: visit where
  "tie_second = (example_voxel, 1, 0, 0, 0, 0)"

definition example_finder :: "int32 \<Rightarrow> int32 \<Rightarrow> PixelFinder" where
  "example_finder px py =
     (PixelFinder_new 0 0 0 64 16 VOR_NORTH)
       \<lparr>rect := \<lparr>rect_base = \<lparr>pt_x = px, pt_y = py\<rparr>, rect_width = 1, rect_height = 1\<rparr>\<rparr>"

text \<open>The offset of the probe within a sprite, cut to \<^verbatim>\<open>int16\<close> (lines 342 and 343).\<close>

definition probe_offset :: "int32 \<Rightarrow> int32 \<Rightarrow> int16 \<Rightarrow> int16" where
  "probe_offset rect_pos north spr_offset = ucast (rect_pos - north - promote_s16 spr_offset)"

text \<open>
  A sprite of one pixel whose pixel-sample operation answers 9 at the offsets (5, 7), beyond its
  width and height, and 0 everywhere else; and a store that has it for every ground.
\<close>

definition far_sprite :: Sprite where
  "far_sprite =
     \<lparr>spr_xoffset = 0, spr_yoffset = 0, spr_width = 1, spr_height = 1,
      GetPixel = (\<lambda>x y. if x = 5 \<and> y = 7 then 9 else 0)\<rparr>"

definition far_store :: SpriteStore where
  "far_store =
     \<lparr>GetSurfaceSprite = (\<lambda>gtype slope tw ori. Some far_sprite),
      GetCursorSprite = (\<lambda>slope tw ori. None)\<rparr>"

subsection \<open>The scan of a column\<close>

text \<open>A visitor that leaves alone the members which the traversal reads.\<close>

definition keeps_view :: "'a visitor \<Rightarrow> bool" where
  "keeps_view visit \<longleftrightarrow> (\<forall>vc voxel a b c d e. same_view (visit vc voxel a b c d e) vc)"

text \<open>
  The indices of a stack from \<open>count\<close> on, in ascending order, up to the first voxel that is not
  below the window and is above it, without the voxels that are below the window.
\<close>

definition scan_from :: "'a VoxelCollector_scheme \<Rightarrow> VoxelStack \<Rightarrow> int32 \<Rightarrow> int32 \<Rightarrow> nat \<Rightarrow> nat list" where
  "scan_from vc stack world_x world_y count =
     filter (\<lambda>c. \<not> below_window vc (voxel_north_y vc stack world_x world_y c))
       (takeWhile
          (\<lambda>c. below_window vc (voxel_north_y vc stack world_x world_y c)
                \<or> \<not> above_window vc (voxel_north_y vc stack world_x world_y c))
          [count..<stack_height stack])"

definition column_visits :: "'a VoxelCollector_scheme \<Rightarrow> VoxelStack \<Rightarrow> int32 \<Rightarrow> int32 \<Rightarrow> nat list" where
  "column_visits vc stack world_x world_y = scan_from vc stack world_x world_y 0"

text \<open>The call of \<^verbatim>\<open>CollectVoxel\<close> for the voxel at index \<open>c\<close> of a stack (line 219).\<close>

definition visit_at ::
  "'a visitor \<Rightarrow> 'b VoxelCollector_scheme \<Rightarrow> VoxelStack \<Rightarrow> nat \<Rightarrow> nat \<Rightarrow> int32 \<Rightarrow> int32 \<Rightarrow> int32
     \<Rightarrow> nat \<Rightarrow> 'a VoxelCollector_scheme \<Rightarrow> 'a VoxelCollector_scheme" where
  "visit_at visit vc0 stack xpos ypos world_x world_y north_x c vc =
     visit vc (voxels stack ! c) (of_nat xpos) (of_nat ypos) (voxel_zpos stack c) north_x
       (voxel_north_y vc0 stack world_x world_y c)"

text \<open>
  A collector with tiles 100 pixels high and a window of one pixel at height -150, and a stack of
  five voxels: seen from the north their corners are at 0, -100, -200, -300 and -400.
\<close>

definition scan_collector :: PixelFinder where
  "scan_collector =
     (PixelFinder_new 0 0 0 64 100 VOR_NORTH)
       \<lparr>rect := \<lparr>rect_base = \<lparr>pt_x = 0, pt_y = - 150\<rparr>, rect_width = 1, rect_height = 1\<rparr>\<rparr>"

definition scan_stack :: VoxelStack where
  "scan_stack =
     \<lparr>voxels = [example_voxel, example_voxel, example_voxel, example_voxel, example_voxel],
      stack_base = 0\<rparr>"

section \<open>Arithmetic of the machine integers\<close>

lemma sint_of_int_fits: "fits_int32 k \<Longrightarrow> sint (word_of_int k :: int32) = k"
  by (simp add: fits_int32_def sint_sbintrunc' signed_take_bit_int_eq_self)

lemma fits_sint: "fits_int32 (sint (a :: int32))"
  using sint_ge [of a] sint_lt [of a] by (simp add: fits_int32_def)

lemma sint_sub_fits: "fits_int32 (sint a - sint b) \<Longrightarrow> sint (a - b :: int32) = sint a - sint b"
  using sint_of_int_fits [of "sint a - sint b"] by simp

lemma sint_add_fits: "fits_int32 (sint a + sint b) \<Longrightarrow> sint (a + b :: int32) = sint a + sint b"
  using sint_of_int_fits [of "sint a + sint b"] by simp

lemma sint_neg_fits: "fits_int32 (- sint a) \<Longrightarrow> sint (- a :: int32) = - sint a"
  using sint_of_int_fits [of "- sint a"] by simp

lemma sint_mult_fits: "fits_int32 (sint a * sint b) \<Longrightarrow> sint (a * b :: int32) = sint a * sint b"
  using sint_of_int_fits [of "sint a * sint b"] by simp

lemma sint_promote_u16: "sint (promote_u16 w) = uint w"
proof -
  have "(0::int) \<le> uint w" by simp
  then have "- (2 ^ 31) \<le> uint w" by (rule order_trans [rotated]) simp
  moreover have "uint w < 2 ^ 31" using uint_lt2p [of w] by simp
  ultimately have "signed_take_bit 31 (uint w) = uint w" by (rule signed_take_bit_int_eq_self)
  then show ?thesis
    unfolding promote_u16_def by (simp add: signed_ucast_eq)
qed

lemma sint_int32_shr: "sint (int32_shr a 8) = sint a div 256"
  by (simp add: int32_shr_def sint_signed_drop_bit_eq drop_bit_eq_div)

text \<open>The truncated quotient by a positive divisor lies between zero and the dividend.\<close>

lemma sdiv_pos_bounds:
  fixes k l :: int
  assumes "0 < l"
  shows "(0 \<le> k \<longrightarrow> 0 \<le> k sdiv l \<and> k sdiv l \<le> k) \<and> (k \<le> 0 \<longrightarrow> k \<le> k sdiv l \<and> k sdiv l \<le> 0)"
proof (cases "0 \<le> k")
  case True
  then have "k sdiv l = k div l" using assms
    by (cases "k = 0") (simp_all add: signed_divide_int_def)
  moreover have "0 \<le> k div l" using True assms by (simp add: pos_imp_zdiv_nonneg_iff)
  moreover have "k div l \<le> k"
    using True int_div_le_self [of k l] by (cases "k = 0") simp_all
  ultimately show ?thesis using True by auto
next
  case False
  then have eq: "k sdiv l = - ((- k) div l)" using assms
    by (simp add: signed_divide_int_def)
  have "0 \<le> (- k) div l" using False assms by (simp add: pos_imp_zdiv_nonneg_iff)
  moreover have "(- k) div l \<le> - k"
    using False int_div_le_self [of "- k" l] by simp
  ultimately show ?thesis using False eq by auto
qed

lemma sint_int32_div_pos:
  assumes "0 < sint b"
  shows "sint (int32_div a b) = sint a sdiv sint b"
proof -
  have "fits_int32 (sint a sdiv sint b)"
    using sdiv_pos_bounds [OF assms, of "sint a"] fits_sint [of a]
    unfolding fits_int32_def by linarith
  then show ?thesis unfolding int32_div_def by (rule sint_of_int_fits)
qed

lemma sint_int32_div_2: "sint (int32_div a 2) = sint a sdiv 2"
  using sint_int32_div_pos [of 2 a] by simp

lemma sint_int32_div_4: "sint (int32_div a 4) = sint a sdiv 4"
  using sint_int32_div_pos [of 4 a] by simp

section \<open>The projection computes the formula of the specification\<close>

lemma sint_sign_combination:
  fixes x y :: int32
  shows "fits_int32 (sint y - sint x) \<Longrightarrow> sint (y - x) = sint y - sint x"
    and "fits_int32 (sint x + sint y) \<Longrightarrow> sint (x + y) = sint x + sint y"
    and "fits_int32 (sint x + sint y) \<Longrightarrow> fits_int32 (- (sint x + sint y)) \<Longrightarrow>
           sint (- (x + y)) = - (sint x + sint y)"
  by (simp_all only: sint_sub_fits sint_add_fits sint_neg_fits)

lemma sint_scaled:
  fixes s :: int32
  assumes "sint s = S" and "fits_int32 (S * uint tw)"
  shows "sint (int32_div (s * promote_u16 tw) 2) = (S * uint tw) sdiv 2"
    and "sint (int32_div (s * promote_u16 tw) 4) = (S * uint tw) sdiv 4"
proof -
  have "sint (s * promote_u16 tw) = S * uint tw"
    using assms sint_mult_fits [of s "promote_u16 tw"] by (simp add: sint_promote_u16)
  then show "sint (int32_div (s * promote_u16 tw) 2) = (S * uint tw) sdiv 2"
    and "sint (int32_div (s * promote_u16 tw) 4) = (S * uint tw) sdiv 4"
    by (simp_all only: sint_int32_div_2 sint_int32_div_4)
qed

lemma ComputeX_formula:
  assumes "ComputeX_defined vc x y"
  shows "sint (ComputeX vc x y) =
    (spec_sign_x (orient vc) (sint x) (sint y) * uint (tile_width vc)) sdiv 2 div 256"
proof -
  let ?S = "spec_sign_x (orient vc) (sint x) (sint y)"
  from assms have fits: "fits_int32 (?S * uint (tile_width vc))"
    by (simp add: ComputeX_defined_def)
  show ?thesis
  proof (cases "orient vc")
    case VOR_NORTH
    with assms have "sint (y - x) = ?S"
      by (simp add: ComputeX_defined_def spec_sign_x_def sint_sign_combination)
    from sint_scaled(1) [OF this fits] VOR_NORTH show ?thesis
      by (simp add: ComputeX_def sint_int32_shr)
  next
    case VOR_WEST
    with assms have "sint (- (x + y)) = ?S"
      by (simp only: ComputeX_defined_def spec_sign_x_def sint_sign_combination
          ViewOrientation.case simp_thms)
    from sint_scaled(1) [OF this fits] VOR_WEST show ?thesis
      by (simp only: ComputeX_def sint_int32_shr ViewOrientation.case)
  next
    case VOR_SOUTH
    with assms have "sint (x - y) = ?S"
      by (simp add: ComputeX_defined_def spec_sign_x_def sint_sign_combination)
    from sint_scaled(1) [OF this fits] VOR_SOUTH show ?thesis
      by (simp add: ComputeX_def sint_int32_shr)
  next
    case VOR_EAST
    with assms have "sint (x + y) = ?S"
      by (simp add: ComputeX_defined_def spec_sign_x_def sint_sign_combination)
    from sint_scaled(1) [OF this fits] VOR_EAST show ?thesis
      by (simp add: ComputeX_def sint_int32_shr)
  qed
qed

lemma sint_z_term:
  fixes z :: int32
  assumes "fits_int32 (sint z * uint th)"
  shows "sint (z * promote_u16 th) = sint z * uint th"
  using assms sint_mult_fits [of z "promote_u16 th"] by (simp add: sint_promote_u16)

lemma sint_ComputeY_body:
  fixes s z :: int32
  assumes s: "sint s = S"
    and fits: "fits_int32 (S * uint tw)"
    and zfits: "fits_int32 (sint z * uint th)"
    and dfits: "fits_int32 ((S * uint tw) sdiv 4 - sint z * uint th)"
  shows "sint (int32_shr (int32_div (s * promote_u16 tw) 4 - z * promote_u16 th) 8) =
    ((S * uint tw) sdiv 4 - sint z * uint th) div 256"
proof -
  have a: "sint (int32_div (s * promote_u16 tw) 4) = (S * uint tw) sdiv 4"
    using s fits by (rule sint_scaled(2))
  have b: "sint (z * promote_u16 th) = sint z * uint th"
    using zfits by (rule sint_z_term)
  have "sint (int32_div (s * promote_u16 tw) 4 - z * promote_u16 th) =
      (S * uint tw) sdiv 4 - sint z * uint th"
    using dfits sint_sub_fits [of "int32_div (s * promote_u16 tw) 4" "z * promote_u16 th"]
    by (simp only: a b)
  then show ?thesis by (simp only: sint_int32_shr)
qed

lemma ComputeY_formula:
  assumes "ComputeY_defined vc x y z"
  shows "sint (ComputeY vc x y z) =
    ((spec_sign_y (orient vc) (sint x) (sint y) * uint (tile_width vc)) sdiv 4
      - sint z * uint (tile_height vc)) div 256"
proof -
  let ?S = "spec_sign_y (orient vc) (sint x) (sint y)"
  from assms have fits: "fits_int32 (?S * uint (tile_width vc))"
    and zfits: "fits_int32 (sint z * uint (tile_height vc))"
    and dfits: "fits_int32 ((?S * uint (tile_width vc)) sdiv 4 - sint z * uint (tile_height vc))"
    by (simp_all add: ComputeY_defined_def)
  show ?thesis
  proof (cases "orient vc")
    case VOR_NORTH
    with assms have "sint (x + y) = ?S"
      by (simp add: ComputeY_defined_def spec_sign_y_def sint_sign_combination)
    from sint_ComputeY_body [OF this fits zfits dfits] VOR_NORTH show ?thesis
      by (simp add: ComputeY_def)
  next
    case VOR_WEST
    with assms have "sint (y - x) = ?S"
      by (simp add: ComputeY_defined_def spec_sign_y_def sint_sign_combination)
    from sint_ComputeY_body [OF this fits zfits dfits] VOR_WEST show ?thesis
      by (simp add: ComputeY_def)
  next
    case VOR_SOUTH
    with assms have "sint (- (x + y)) = ?S"
      by (simp only: ComputeY_defined_def spec_sign_y_def sint_sign_combination
          ViewOrientation.case simp_thms)
    from sint_ComputeY_body [OF this fits zfits dfits] VOR_SOUTH show ?thesis
      by (simp only: ComputeY_def ViewOrientation.case)
  next
    case VOR_EAST
    with assms have "sint (x - y) = ?S"
      by (simp add: ComputeY_defined_def spec_sign_y_def sint_sign_combination)
    from sint_ComputeY_body [OF this fits zfits dfits] VOR_EAST show ?thesis
      by (simp add: ComputeY_def)
  qed
qed

text \<open>
  Claim C1. For every world position and each of the four orientations, as long as no signed
  operation overflows: the horizontal output of the projector is the orientation's sign
  combination of \<open>x\<close> and \<open>y\<close>, times the tile width, halved with the quotient truncated towards
  zero as the operator \<^verbatim>\<open>/\<close> does, and divided by 256 rounding down as the shift does; the
  vertical output is the sign combination times the tile width, quartered the same way, minus
  \<open>z\<close> times the tile height, divided by 256 rounding down. All of it is integer arithmetic.
\<close>

theorem projector_formulas:
  "(ComputeX_defined vc x y \<longrightarrow>
      sint (ComputeX vc x y) =
        (spec_sign_x (orient vc) (sint x) (sint y) * uint (tile_width vc)) sdiv 2 div 256) \<and>
   (ComputeY_defined vc x y z \<longrightarrow>
      sint (ComputeY vc x y z) =
        ((spec_sign_y (orient vc) (sint x) (sint y) * uint (tile_width vc)) sdiv 4
          - sint z * uint (tile_height vc)) div 256)"
  using ComputeX_formula [of vc x y] ComputeY_formula [of vc x y z] by blast

theorem projector_formulas_witness:
  "ComputeX_defined (example_collector VOR_NORTH) 1 0 \<and>
   sint (ComputeX (example_collector VOR_NORTH) 1 0) = - 1 \<and>
   ComputeY_defined (example_collector VOR_NORTH) 1 0 256 \<and>
   sint (ComputeY (example_collector VOR_NORTH) 1 0 256) = - 16"
  using projector_formulas [of "example_collector VOR_NORTH" 1 0 256]
  by (simp add: ComputeX_defined_def ComputeY_defined_def example_collector_def spec_sign_x_def
      spec_sign_y_def fits_int32_def signed_divide_int_def)

section \<open>Height and the vertical screen position\<close>

lemma ComputeY_cong:
  "orient a = orient b \<Longrightarrow> tile_width a = tile_width b \<Longrightarrow> tile_height a = tile_height b \<Longrightarrow>
   ComputeY a x y z = ComputeY b x y z"
  by (cases "orient b") (simp_all add: ComputeY_def)

lemma ComputeY_one_tile_up:
  assumes th: "tile_height vc \<noteq> 0"
    and z: "fits_int32 (sint z + 256)"
    and lo: "ComputeY_defined vc x y z"
    and hi: "ComputeY_defined vc x y (z + 256)"
  shows "sint (ComputeY vc x y (z + 256)) = sint (ComputeY vc x y z) - uint (tile_height vc)"
    and "sint (ComputeY vc x y (z + 256)) < sint (ComputeY vc x y z)"
proof -
  let ?A = "(spec_sign_y (orient vc) (sint x) (sint y) * uint (tile_width vc)) sdiv 4"
  let ?h = "uint (tile_height vc)"
  have z': "sint (z + 256) = sint z + 256"
    using z sint_add_fits [of z 256] by simp
  have "sint (ComputeY vc x y (z + 256)) = (?A - (sint z + 256) * ?h) div 256"
    using ComputeY_formula [OF hi] by (simp only: z')
  also have "?A - (sint z + 256) * ?h = (?A - sint z * ?h) + (- ?h) * 256"
    by (simp add: algebra_simps)
  also have "\<dots> div 256 = (- ?h) + (?A - sint z * ?h) div 256"
    by (rule div_mult_self1) simp
  finally show eq: "sint (ComputeY vc x y (z + 256)) = sint (ComputeY vc x y z) - ?h"
    using ComputeY_formula [OF lo] by simp
  have "?h \<noteq> 0" using th by (simp add: uint_0_iff)
  moreover have "0 \<le> ?h" by simp
  ultimately have "0 < ?h" by linarith
  then show "sint (ComputeY vc x y (z + 256)) < sint (ComputeY vc x y z)"
    using eq by simp
qed

text \<open>
  Claim C7. The vertical output depends on nothing but the orientation, the tile size and the
  position; and for each orientation, any \<open>x\<close> and \<open>y\<close>, any tile width and a tile height of at
  least 1, it strictly decreases when \<open>z\<close> grows by one tile (256 units), as long as no signed
  operation overflows at either height.
\<close>

theorem ComputeY_strictly_decreases_in_z:
  "(orient a = orient b \<and> tile_width a = tile_width b \<and> tile_height a = tile_height b \<longrightarrow>
      ComputeY a x y z = ComputeY b x y z) \<and>
   (tile_height vc \<noteq> 0 \<and> fits_int32 (sint z + 256) \<and> ComputeY_defined vc x y z \<and>
    ComputeY_defined vc x y (z + 256) \<longrightarrow>
      sint (ComputeY vc x y (z + 256)) < sint (ComputeY vc x y z))"
  using ComputeY_cong [of a b x y z] ComputeY_one_tile_up(2) [of vc z x y] by blast

theorem ComputeY_strictly_decreases_in_z_witness:
  "tile_height (example_collector VOR_WEST) \<noteq> 0 \<and> fits_int32 (sint (512 :: int32) + 256) \<and>
   ComputeY_defined (example_collector VOR_WEST) 256 768 512 \<and>
   ComputeY_defined (example_collector VOR_WEST) 256 768 (512 + 256) \<and>
   sint (ComputeY (example_collector VOR_WEST) 256 768 (512 + 256)) = - 16 \<and>
   sint (ComputeY (example_collector VOR_WEST) 256 768 512) = 0 \<and>
   sint (ComputeY (example_collector VOR_WEST) 256 768 (512 + 256))
     < sint (ComputeY (example_collector VOR_WEST) 256 768 512)"
  using ComputeY_strictly_decreases_in_z
    [of "example_collector VOR_WEST" "example_collector VOR_WEST" 256 768 512
        "example_collector VOR_WEST"]
  by (simp add: ComputeY_defined_def example_collector_def spec_sign_y_def fits_int32_def
      signed_divide_int_def ComputeY_def int32_shr_def int32_div_def promote_u16_def)

section \<open>Depth keys\<close>

lemma keys_agree: "SpriteCollector_key ori xpos ypos zpos = PixelFinder_dist ori xpos ypos zpos"
  by (simp add: SpriteCollector_key_def PixelFinder_dist_def)

lemma sint_256: "sint (256 :: int32) = 256" "sint (- 256 :: int32) = - 256"
  by simp_all

lemma small_fits: "\<bar>k\<bar> < 536870912 \<Longrightarrow> fits_int32 k"
  and small_sum_fits: "\<bar>k\<bar> < 536870912 \<Longrightarrow> \<bar>l\<bar> < 536870912 \<Longrightarrow> fits_int32 (k + l)"
  and small_sum3_fits:
    "\<bar>k\<bar> < 536870912 \<Longrightarrow> \<bar>l\<bar> < 536870912 \<Longrightarrow> \<bar>m\<bar> < 536870912 \<Longrightarrow> fits_int32 (k + l + m)"
  unfolding fits_int32_def by linarith+

lemma sint_key_sum:
  fixes sx sy xpos ypos zpos :: int32
  assumes "\<bar>sint sx\<bar> = 256" "\<bar>sint sy\<bar> = 256"
    and "\<bar>sint xpos\<bar> < 2097152" "\<bar>sint ypos\<bar> < 2097152" "\<bar>sint zpos\<bar> < 2097152"
  shows "sint (sx * xpos + sy * ypos + zpos * 256) =
    sint sx * sint xpos + sint sy * sint ypos + 256 * sint zpos"
proof -
  have bx: "\<bar>sint sx * sint xpos\<bar> < 536870912"
    using assms(1,3) by (simp add: abs_mult)
  have by': "\<bar>sint sy * sint ypos\<bar> < 536870912"
    using assms(2,4) by (simp add: abs_mult)
  have bz: "\<bar>sint zpos * 256\<bar> < 536870912"
    using assms(5) by (simp add: abs_mult)
  have x: "sint (sx * xpos) = sint sx * sint xpos"
    using bx by (intro sint_mult_fits small_fits)
  have y: "sint (sy * ypos) = sint sy * sint ypos"
    using by' by (intro sint_mult_fits small_fits)
  have z: "sint (zpos * 256) = sint zpos * 256"
    using small_fits [OF bz] sint_mult_fits [of zpos 256] by simp
  have xy: "sint (sx * xpos + sy * ypos) = sint sx * sint xpos + sint sy * sint ypos"
    using small_sum_fits [OF bx by'] sint_add_fits [of "sx * xpos" "sy * ypos"]
    by (simp only: x y)
  have "sint (sx * xpos + sy * ypos + zpos * 256) =
      sint sx * sint xpos + sint sy * sint ypos + sint zpos * 256"
    using small_sum3_fits [OF bx by' bz] sint_add_fits [of "sx * xpos + sy * ypos" "zpos * 256"]
    by (simp only: xy z)
  then show ?thesis by simp
qed

lemma sint_SpriteCollector_key:
  assumes "depth_key_defined xpos ypos zpos"
  shows "sint (SpriteCollector_key ori xpos ypos zpos) = depth_key ori (sint xpos) (sint ypos) (sint zpos)"
  using assms unfolding depth_key_defined_def SpriteCollector_key_def depth_key_def Let_def
  by (simp add: sint_key_sum)

lemma SpriteCollector_inserts_key:
  assumes "ground_type svd \<noteq> GTP_INVALID"
    and "GetSurfaceSprite store (ground_type svd) (ground_slope svd) (tile_width sc) (orient sc)
           = Some spr"
  shows "\<exists>dd. SpriteCollector_CollectVoxel store sc (VT_SURFACE svd) xpos ypos zpos xn yn =
           sc\<lparr>draw_images :=
                multimap_insert (SpriteCollector_key (orient sc) xpos ypos zpos, dd)
                  (draw_images sc)\<rparr>"
  using assms by (simp add: SpriteCollector_CollectVoxel_def Let_def) blast

lemma PixelFinder_dist_unfolded:
  "PixelFinder_dist ori xpos ypos zpos =
     (if ori = VOR_NORTH \<or> ori = VOR_EAST then 256 else - 256) * xpos
       + (if ori = VOR_NORTH \<or> ori = VOR_WEST then 256 else - 256) * ypos + zpos * 256"
  by (simp only: PixelFinder_dist_def Let_def)

lemma PixelFinder_CollectVoxel_candidate:
  assumes "ground_type svd \<noteq> GTP_INVALID"
    and "GetSurfaceSprite store (ground_type svd) (ground_slope svd) (tile_width pf) (orient pf)
           = Some spr"
  shows "PixelFinder_CollectVoxel store pf (VT_SURFACE svd) xpos ypos zpos xn yn =
    (if found pf \<and> PixelFinder_dist (orient pf) xpos ypos zpos \<le>s distance pf then pf
     else if probe_offset (pt_x (rect_base (rect pf))) xn (spr_xoffset spr) <s 0
             \<or> probe_offset (pt_y (rect_base (rect pf))) yn (spr_yoffset spr) <s 0
     then pf
     else if GetPixel spr (probe_offset (pt_x (rect_base (rect pf))) xn (spr_xoffset spr))
               (probe_offset (pt_y (rect_base (rect pf))) yn (spr_yoffset spr)) = 0
     then pf
     else pf\<lparr>distance := PixelFinder_dist (orient pf) xpos ypos zpos, found := True,
             xvoxel := ucast xpos, yvoxel := ucast ypos, zvoxel := ucast zpos,
             pixel := GetPixel spr (probe_offset (pt_x (rect_base (rect pf))) xn (spr_xoffset spr))
                        (probe_offset (pt_y (rect_base (rect pf))) yn (spr_yoffset spr))\<rparr>)"
  using assms
  by (simp add: PixelFinder_CollectVoxel_def PixelFinder_probe_def probe_offset_def Let_def)

text \<open>
  Claim C2, as amended. For a surface voxel with a valid ground type whose sprite resolves, at
  any position and for every orientation, both collectors compute the same depth key
  \<open>sx * xpos + sy * ypos + zpos * 256\<close>, where \<open>sx\<close> is 256 for NORTH and EAST and -256 otherwise
  and \<open>sy\<close> is 256 for NORTH and WEST and -256 otherwise. The sprite collector inserts its draw
  command under this key. The pixel finder compares this key with the distance of the result
  found so far and returns unchanged when a result was found whose distance is greater or
  equal; otherwise, when both offsets of the probe are non-negative and the sampled pixel is
  not zero, it records this key as the distance, and in every other case it returns unchanged.
  For positions below 2097152 in absolute value the key is the integer
  \<open>sx * xpos + sy * ypos + 256 * zpos\<close>.
\<close>

theorem depth_key_of_both_collectors:
  "(ground_type svd \<noteq> GTP_INVALID \<and>
    GetSurfaceSprite store (ground_type svd) (ground_slope svd) (tile_width sc) (orient sc)
      = Some spr \<longrightarrow>
      (\<exists>dd. SpriteCollector_CollectVoxel store sc (VT_SURFACE svd) xpos ypos zpos xn yn =
         sc\<lparr>draw_images :=
              multimap_insert (SpriteCollector_key (orient sc) xpos ypos zpos, dd)
                (draw_images sc)\<rparr>)) \<and>
   (ground_type svd \<noteq> GTP_INVALID \<and>
    GetSurfaceSprite store (ground_type svd) (ground_slope svd) (tile_width pf) (orient pf)
      = Some spr' \<longrightarrow>
      PixelFinder_CollectVoxel store pf (VT_SURFACE svd) xpos ypos zpos xn yn =
        (if found pf \<and> PixelFinder_dist (orient pf) xpos ypos zpos \<le>s distance pf then pf
         else if probe_offset (pt_x (rect_base (rect pf))) xn (spr_xoffset spr') <s 0
                 \<or> probe_offset (pt_y (rect_base (rect pf))) yn (spr_yoffset spr') <s 0
         then pf
         else if GetPixel spr' (probe_offset (pt_x (rect_base (rect pf))) xn (spr_xoffset spr'))
                   (probe_offset (pt_y (rect_base (rect pf))) yn (spr_yoffset spr')) = 0
         then pf
         else pf\<lparr>distance := PixelFinder_dist (orient pf) xpos ypos zpos, found := True,
                 xvoxel := ucast xpos, yvoxel := ucast ypos, zvoxel := ucast zpos,
                 pixel :=
                   GetPixel spr' (probe_offset (pt_x (rect_base (rect pf))) xn (spr_xoffset spr'))
                     (probe_offset (pt_y (rect_base (rect pf))) yn (spr_yoffset spr'))\<rparr>)) \<and>
   SpriteCollector_key ori xpos ypos zpos = PixelFinder_dist ori xpos ypos zpos \<and>
   PixelFinder_dist ori xpos ypos zpos =
     (if ori = VOR_NORTH \<or> ori = VOR_EAST then 256 else - 256) * xpos
       + (if ori = VOR_NORTH \<or> ori = VOR_WEST then 256 else - 256) * ypos + zpos * 256 \<and>
   (depth_key_defined xpos ypos zpos \<longrightarrow>
      sint (SpriteCollector_key ori xpos ypos zpos) =
        depth_key ori (sint xpos) (sint ypos) (sint zpos) \<and>
      sint (PixelFinder_dist ori xpos ypos zpos) =
        depth_key ori (sint xpos) (sint ypos) (sint zpos))"
  using SpriteCollector_inserts_key [of svd store sc spr xpos ypos zpos xn yn]
    PixelFinder_CollectVoxel_candidate [of svd store pf spr' xpos ypos zpos xn yn]
    keys_agree [of ori xpos ypos zpos] sint_SpriteCollector_key [of xpos ypos zpos ori]
    PixelFinder_dist_unfolded [of ori xpos ypos zpos]
  by (simp only: simp_thms) blast

theorem depth_key_of_both_collectors_witness:
  "ground_type \<lparr>ground_type = 0, ground_slope = 0\<rparr> \<noteq> GTP_INVALID \<and>
   GetSurfaceSprite example_store (ground_type \<lparr>ground_type = 0, ground_slope = 0\<rparr>)
     (ground_slope \<lparr>ground_type = 0, ground_slope = 0\<rparr>)
     (tile_width (SpriteCollector_new 0 0 0 64 16 VOR_SOUTH))
     (orient (SpriteCollector_new 0 0 0 64 16 VOR_SOUTH)) = Some example_sprite \<and>
   GetSurfaceSprite example_store (ground_type \<lparr>ground_type = 0, ground_slope = 0\<rparr>)
     (ground_slope \<lparr>ground_type = 0, ground_slope = 0\<rparr>)
     (tile_width (PixelFinder_new 0 0 0 64 16 VOR_SOUTH))
     (orient (PixelFinder_new 0 0 0 64 16 VOR_SOUTH)) = Some example_sprite \<and>
   GetSurfaceSprite example_store (ground_type \<lparr>ground_type = 0, ground_slope = 0\<rparr>)
     (ground_slope \<lparr>ground_type = 0, ground_slope = 0\<rparr>)
     (tile_width found_finder) (orient found_finder) = Some example_sprite \<and>
   depth_key_defined 2 3 1 \<and>
   sint (SpriteCollector_key VOR_SOUTH 2 3 1) = - 1024 \<and>
   sint (PixelFinder_dist VOR_SOUTH 2 3 1) = - 1024 \<and>
   found (PixelFinder_CollectVoxel example_store (PixelFinder_new 0 0 0 64 16 VOR_SOUTH)
            (VT_SURFACE \<lparr>ground_type = 0, ground_slope = 0\<rparr>) 2 3 1 0 0) \<and>
   sint (distance (PixelFinder_CollectVoxel example_store (PixelFinder_new 0 0 0 64 16 VOR_SOUTH)
                     (VT_SURFACE \<lparr>ground_type = 0, ground_slope = 0\<rparr>) 2 3 1 0 0)) = - 1024 \<and>
   PixelFinder_CollectVoxel example_store found_finder
     (VT_SURFACE \<lparr>ground_type = 0, ground_slope = 0\<rparr>) 2 3 1 0 0 = found_finder"
proof -
  have hyps:
    "ground_type \<lparr>ground_type = 0, ground_slope = 0\<rparr> \<noteq> GTP_INVALID"
    "GetSurfaceSprite example_store (ground_type \<lparr>ground_type = 0, ground_slope = 0\<rparr>)
       (ground_slope \<lparr>ground_type = 0, ground_slope = 0\<rparr>)
       (tile_width (SpriteCollector_new 0 0 0 64 16 VOR_SOUTH))
       (orient (SpriteCollector_new 0 0 0 64 16 VOR_SOUTH)) = Some example_sprite"
    "GetSurfaceSprite example_store (ground_type \<lparr>ground_type = 0, ground_slope = 0\<rparr>)
       (ground_slope \<lparr>ground_type = 0, ground_slope = 0\<rparr>)
       (tile_width (PixelFinder_new 0 0 0 64 16 VOR_SOUTH))
       (orient (PixelFinder_new 0 0 0 64 16 VOR_SOUTH)) = Some example_sprite"
    "GetSurfaceSprite example_store (ground_type \<lparr>ground_type = 0, ground_slope = 0\<rparr>)
       (ground_slope \<lparr>ground_type = 0, ground_slope = 0\<rparr>)
       (tile_width found_finder) (orient found_finder) = Some example_sprite"
    "depth_key_defined 2 3 1"
    by (simp_all add: GTP_INVALID_def example_store_def depth_key_defined_def)
  have vals:
    "depth_key VOR_SOUTH (sint (2 :: int32)) (sint (3 :: int32)) (sint (1 :: int32)) = - 1024"
    "orient (PixelFinder_new 0 0 0 64 16 VOR_SOUTH) = VOR_SOUTH"
    "orient found_finder = VOR_SOUTH" "found found_finder" "distance found_finder = 0"
    "\<not> found (PixelFinder_new 0 0 0 64 16 VOR_SOUTH)"
    "probe_offset (pt_x (rect_base (rect (PixelFinder_new 0 0 0 64 16 VOR_SOUTH)))) 0
       (spr_xoffset example_sprite) = 0"
    "probe_offset (pt_y (rect_base (rect (PixelFinder_new 0 0 0 64 16 VOR_SOUTH)))) 0
       (spr_yoffset example_sprite) = 0"
    "GetPixel example_sprite 0 0 = 1"
    by (simp_all add: depth_key_def PixelFinder_new_def found_finder_def probe_offset_def
        example_sprite_def promote_s16_def)
  from depth_key_of_both_collectors
    [where svd = "\<lparr>ground_type = 0, ground_slope = 0\<rparr>" and store = example_store
       and sc = "SpriteCollector_new 0 0 0 64 16 VOR_SOUTH" and spr = example_sprite
       and pf = "PixelFinder_new 0 0 0 64 16 VOR_SOUTH" and spr' = example_sprite
       and xpos = 2 and ypos = 3 and zpos = 1 and xn = 0 and yn = 0 and ori = VOR_SOUTH]
    hyps vals
  have first:
    "sint (SpriteCollector_key VOR_SOUTH 2 3 1) = - 1024"
    "sint (PixelFinder_dist VOR_SOUTH 2 3 1) = - 1024"
    "found (PixelFinder_CollectVoxel example_store (PixelFinder_new 0 0 0 64 16 VOR_SOUTH)
              (VT_SURFACE \<lparr>ground_type = 0, ground_slope = 0\<rparr>) 2 3 1 0 0)"
    "sint (distance (PixelFinder_CollectVoxel example_store (PixelFinder_new 0 0 0 64 16 VOR_SOUTH)
                       (VT_SURFACE \<lparr>ground_type = 0, ground_slope = 0\<rparr>) 2 3 1 0 0)) = - 1024"
    by simp_all
  from depth_key_of_both_collectors
    [where svd = "\<lparr>ground_type = 0, ground_slope = 0\<rparr>" and store = example_store
       and sc = "SpriteCollector_new 0 0 0 64 16 VOR_SOUTH" and spr = example_sprite
       and pf = found_finder and spr' = example_sprite
       and xpos = 2 and ypos = 3 and zpos = 1 and xn = 0 and yn = 0 and ori = VOR_SOUTH]
    hyps vals first(2)
  have "PixelFinder_CollectVoxel example_store found_finder
      (VT_SURFACE \<lparr>ground_type = 0, ground_slope = 0\<rparr>) 2 3 1 0 0 = found_finder"
    by (simp add: word_sle_eq)
  with hyps first show ?thesis by simp
qed

text \<open>
  The claim as worded multiplies the signed 256 by 256 again. For the voxel at (1, 0, 0) seen
  from the north both collectors compute 256, the worded formula gives 65536.
\<close>

theorem claimed_depth_key_counterexample:
  "map (\<lambda>p. sint (fst p))
     (draw_images (SpriteCollector_CollectVoxel example_store
        (SpriteCollector_new 0 0 0 64 16 VOR_NORTH) example_voxel 1 0 0 0 0)) = [256] \<and>
   sint (distance (PixelFinder_CollectVoxel example_store (PixelFinder_new 0 0 0 64 16 VOR_NORTH)
                     example_voxel 1 0 0 0 0)) = 256 \<and>
   claimed_depth_key VOR_NORTH 1 0 0 = 65536"
  by (simp add: GTP_INVALID_def example_store_def example_sprite_def example_voxel_def
      PixelFinder_probe_def PixelFinder_new_def SpriteCollector_new_def
      PixelFinder_CollectVoxel_def SpriteCollector_CollectVoxel_def SpriteCollector_key_def
      claimed_depth_key_def PixelFinder_dist_def promote_s16_def word_sle_eq word_sless_alt)

section \<open>Panning\<close>

lemma sint_world_size: "sint (promote_u16 n * 256) = uint n * 256"
proof -
  have "uint n < 65536" using uint_lt2p [of n] by simp
  moreover have "0 \<le> uint n" by simp
  ultimately have "fits_int32 (uint n * 256)"
    unfolding fits_int32_def by linarith
  then have "fits_int32 (sint (promote_u16 n) * sint (256 :: int32))"
    by (simp add: sint_promote_u16)
  then have "sint (promote_u16 n * 256) = sint (promote_u16 n) * sint (256 :: int32)"
    by (rule sint_mult_fits)
  then show ?thesis by (simp add: sint_promote_u16)
qed

lemma Clamp_range:
  assumes "0 \<le> sint hi"
  shows "0 \<le> sint (Clamp a 0 hi)" and "sint (Clamp a 0 hi) \<le> sint hi"
  using assms by (auto simp add: Clamp_def word_sle_eq)

lemma MoveViewport_total:
  "vp_tile_width vp \<noteq> 0 \<Longrightarrow> \<exists>vp'. MoveViewport world vp dx dy = Some vp'"
  by (simp add: MoveViewport_def Let_def)

lemma MoveViewport_center:
  assumes "MoveViewport world vp dx dy = Some vp'"
  shows "vp_xview vp' = Clamp (fst (pan_target vp dx dy)) 0 (promote_u16 (GetXSize world) * 256)"
    and "vp_yview vp' = Clamp (snd (pan_target vp dx dy)) 0 (promote_u16 (GetYSize world) * 256)"
  using assms by (auto simp add: MoveViewport_def Let_def MarkDirty_def split: if_splits)

lemma MoveViewport_keeps:
  assumes "MoveViewport world vp dx dy = Some vp'"
  shows "orientation vp' = orientation vp" and "vp_tile_width vp' = vp_tile_width vp"
  using assms by (auto simp add: MoveViewport_def Let_def MarkDirty_def split: if_splits)

lemma MoveViewport_absorbed:
  assumes "MoveViewport world vp dx dy = Some vp'"
    and "Clamp (fst (pan_target vp dx dy)) 0 (promote_u16 (GetXSize world) * 256) = vp_xview vp"
    and "Clamp (snd (pan_target vp dx dy)) 0 (promote_u16 (GetYSize world) * 256) = vp_yview vp"
  shows "vp' = vp"
  using assms by (simp add: MoveViewport_def Let_def split: if_splits)

lemma MoveViewport_in_world:
  assumes "MoveViewport world vp dx dy = Some vp'"
  shows "0 \<le> sint (vp_xview vp')" "sint (vp_xview vp') \<le> uint (GetXSize world) * 256"
    "0 \<le> sint (vp_yview vp')" "sint (vp_yview vp') \<le> uint (GetYSize world) * 256"
proof -
  have x: "0 \<le> sint (promote_u16 (GetXSize world) * 256)"
    and y: "0 \<le> sint (promote_u16 (GetYSize world) * 256)"
    by (simp_all add: sint_world_size)
  show "0 \<le> sint (vp_xview vp')" "sint (vp_xview vp') \<le> uint (GetXSize world) * 256"
    using Clamp_range [OF x] MoveViewport_center(1) [OF assms] by (simp_all add: sint_world_size)
  show "0 \<le> sint (vp_yview vp')" "sint (vp_yview vp') \<le> uint (GetYSize world) * 256"
    using Clamp_range [OF y] MoveViewport_center(2) [OF assms] by (simp_all add: sint_world_size)
qed

text \<open>
  Claim C5. \<^verbatim>\<open>MoveViewport\<close> returns for every tile width other than zero; for every pan,
  orientation and starting view center, the view center afterwards lies within 0 and the
  world's size times 256 in both coordinates; and when the clamped new center is the current
  one, the viewport is unchanged, its count of redraw signals included.
\<close>

theorem MoveViewport_stays_in_world:
  "(vp_tile_width vp \<noteq> 0 \<longrightarrow> (\<exists>vp'. MoveViewport world vp dx dy = Some vp')) \<and>
   (MoveViewport world vp dx dy = Some vp' \<longrightarrow>
      0 \<le> sint (vp_xview vp') \<and> sint (vp_xview vp') \<le> uint (GetXSize world) * 256 \<and>
      0 \<le> sint (vp_yview vp') \<and> sint (vp_yview vp') \<le> uint (GetYSize world) * 256 \<and>
      (Clamp (fst (pan_target vp dx dy)) 0 (promote_u16 (GetXSize world) * 256) = vp_xview vp \<and>
       Clamp (snd (pan_target vp dx dy)) 0 (promote_u16 (GetYSize world) * 256) = vp_yview vp \<longrightarrow>
         vp' = vp \<and> redraw_signals vp' = redraw_signals vp))"
  using MoveViewport_total [of vp world dx dy] MoveViewport_in_world [of world vp dx dy vp']
    MoveViewport_absorbed [of world vp dx dy vp']
  by blast

theorem MoveViewport_stays_in_world_witness:
  "vp_tile_width (example_viewport 512 0 VOR_NORTH) \<noteq> 0 \<and>
   MoveViewport example_world (example_viewport 512 0 VOR_NORTH) 1000 0
     = Some (example_viewport 512 0 VOR_NORTH) \<and>
   Clamp (fst (pan_target (example_viewport 512 0 VOR_NORTH) 1000 0)) 0
     (promote_u16 (GetXSize example_world) * 256) = vp_xview (example_viewport 512 0 VOR_NORTH) \<and>
   Clamp (snd (pan_target (example_viewport 512 0 VOR_NORTH) 1000 0)) 0
     (promote_u16 (GetYSize example_world) * 256) = vp_yview (example_viewport 512 0 VOR_NORTH) \<and>
   sint (vp_xview (example_viewport 512 0 VOR_NORTH)) \<le> uint (GetXSize example_world) * 256 \<and>
   (\<exists>vp'. MoveViewport example_world (example_viewport 512 0 VOR_NORTH) 1000 0 = Some vp')"
  using MoveViewport_stays_in_world
    [of "example_viewport 512 0 VOR_NORTH" example_world 1000 0 "example_viewport 512 0 VOR_NORTH"]
  by (simp add: example_viewport_def example_world_def Viewport_new_def MoveViewport_def
      pan_target_def Clamp_def promote_u16_def int32_div_def word_sle_eq signed_divide_int_def)

lemma sdiv_minus_left: "(- k) sdiv l = - (k sdiv l)" for k l :: int
  by (simp add: signed_divide_int_def sgn_minus)

lemma int32_div_minus:
  assumes "fits_int32 (- sint a)"
  shows "int32_div (- a) b = - int32_div a b"
proof -
  have "sint (- a) = - sint a" using assms by (rule sint_neg_fits)
  then show ?thesis by (simp add: int32_div_def sdiv_minus_left)
qed

lemma scaled_fits_neg:
  "fits_int32 (k * 256) \<Longrightarrow> fits_int32 (- k)"
  "fits_int32 (k * 512) \<Longrightarrow> fits_int32 (- k)"
  unfolding fits_int32_def by linarith+

text \<open>The quotients of a pan and of the opposite pan are opposite.\<close>

lemma pan_quotients_opposite:
  assumes "pan_defined dx dy" and "pan_defined (- dx) (- dy)"
  shows "int32_div (- dx * 256) tw = - int32_div (dx * 256) tw"
    and "int32_div (- dy * 512) tw = - int32_div (dy * 512) tw"
proof -
  have "fits_int32 (- sint dx)" and "fits_int32 (- sint dy)"
    using assms(1) scaled_fits_neg(1) [of "sint dx"] scaled_fits_neg(2) [of "sint dy"]
    by (simp_all add: pan_defined_def)
  then have nx: "sint (- dx) = - sint dx" and ny: "sint (- dy) = - sint dy"
    by (simp_all add: sint_neg_fits)
  have x: "sint (dx * 256) = sint dx * 256" and y: "sint (dy * 512) = sint dy * 512"
    using assms(1) sint_mult_fits [of dx 256] sint_mult_fits [of dy 512]
    by (simp_all add: pan_defined_def)
  have "fits_int32 (- sint (dx * 256))" and "fits_int32 (- sint (dy * 512))"
    using assms(2) by (simp_all add: pan_defined_def nx ny x y)
  then have "int32_div (- (dx * 256)) tw = - int32_div (dx * 256) tw"
    and "int32_div (- (dy * 512)) tw = - int32_div (dy * 512) tw"
    by (simp_all only: int32_div_minus)
  then show "int32_div (- dx * 256) tw = - int32_div (dx * 256) tw"
    and "int32_div (- dy * 512) tw = - int32_div (dy * 512) tw"
    by simp_all
qed

lemma pan_target_back:
  assumes "pan_defined dx dy" and "pan_defined (- dx) (- dy)"
    and "orientation vp1 = orientation vp" and "vp_tile_width vp1 = vp_tile_width vp"
    and "vp_xview vp1 = fst (pan_target vp dx dy)" and "vp_yview vp1 = snd (pan_target vp dx dy)"
  shows "pan_target vp1 (- dx) (- dy) = (vp_xview vp, vp_yview vp)"
  using assms(3-6) pan_quotients_opposite [OF assms(1,2)]
  by (cases "orientation vp") (simp_all add: pan_target_def Let_def)

lemma MoveViewport_there_and_back:
  assumes d: "pan_defined dx dy" "pan_defined (- dx) (- dy)"
    and there: "MoveViewport world vp dx dy = Some vp1" "pan_unclamped world vp dx dy"
    and ret: "MoveViewport world vp1 (- dx) (- dy) = Some vp2"
      "pan_unclamped world vp1 (- dx) (- dy)"
  shows "vp_xview vp2 = vp_xview vp" and "vp_yview vp2 = vp_yview vp"
proof -
  have c1: "vp_xview vp1 = fst (pan_target vp dx dy)" "vp_yview vp1 = snd (pan_target vp dx dy)"
    using MoveViewport_center [OF there(1)] there(2) by (simp_all add: pan_unclamped_def)
  have t: "pan_target vp1 (- dx) (- dy) = (vp_xview vp, vp_yview vp)"
    using d MoveViewport_keeps [OF there(1)] c1 by (rule pan_target_back)
  show "vp_xview vp2 = vp_xview vp" and "vp_yview vp2 = vp_yview vp"
    using MoveViewport_center [OF ret(1)] ret(2) by (simp_all add: pan_unclamped_def t)
qed

text \<open>
  Claim C6. For every orientation and starting view center: when neither the pan by \<open>(dx, dy)\<close>
  nor the pan back by \<open>(-dx, -dy)\<close> triggers the boundary clamp, and the products of the two
  pans do not overflow, the two calls of \<^verbatim>\<open>MoveViewport\<close> return the view center to where it was.
\<close>

theorem pan_and_opposite_pan:
  "pan_defined dx dy \<and> pan_defined (- dx) (- dy) \<and>
   MoveViewport world vp dx dy = Some vp1 \<and> pan_unclamped world vp dx dy \<and>
   MoveViewport world vp1 (- dx) (- dy) = Some vp2 \<and> pan_unclamped world vp1 (- dx) (- dy) \<longrightarrow>
     vp_xview vp2 = vp_xview vp \<and> vp_yview vp2 = vp_yview vp"
  using MoveViewport_there_and_back [of dx dy world vp vp1 vp2] by blast

theorem pan_and_opposite_pan_witness:
  "pan_defined 5 (- 3) \<and> pan_defined (- 5) (- (- 3)) \<and>
   MoveViewport example_world (example_viewport 256 256 VOR_EAST) 5 (- 3)
     = Some (MarkDirty (example_viewport 260 212 VOR_EAST)) \<and>
   pan_unclamped example_world (example_viewport 256 256 VOR_EAST) 5 (- 3) \<and>
   MoveViewport example_world (MarkDirty (example_viewport 260 212 VOR_EAST)) (- 5) (- (- 3))
     = Some (MarkDirty (MarkDirty (example_viewport 256 256 VOR_EAST))) \<and>
   pan_unclamped example_world (MarkDirty (example_viewport 260 212 VOR_EAST)) (- 5) (- (- 3)) \<and>
   vp_xview (MarkDirty (MarkDirty (example_viewport 256 256 VOR_EAST)))
     = vp_xview (example_viewport 256 256 VOR_EAST) \<and>
   vp_yview (MarkDirty (MarkDirty (example_viewport 256 256 VOR_EAST)))
     = vp_yview (example_viewport 256 256 VOR_EAST)"
  using pan_and_opposite_pan
    [of 5 "- 3" example_world "example_viewport 256 256 VOR_EAST"
        "MarkDirty (example_viewport 260 212 VOR_EAST)"
        "MarkDirty (MarkDirty (example_viewport 256 256 VOR_EAST))"]
  by (simp add: example_viewport_def example_world_def Viewport_new_def MoveViewport_def
      pan_target_def Clamp_def promote_u16_def int32_div_def word_sle_eq signed_divide_int_def
      pan_defined_def pan_unclamped_def fits_int32_def MarkDirty_def)

section \<open>Rotation\<close>

lemma ComputeCursorPosition_keeps:
  "orientation (ComputeCursorPosition world store vp) = orientation vp"
  "redraw_signals vp \<le> redraw_signals (ComputeCursorPosition world store vp)"
  by (simp_all add: ComputeCursorPosition_def Let_def MarkDirty_def)

lemma Rotate_orientation:
  "orientation (Rotate world store vp direction) =
     ViewOrientation_of_int
       (int32_mod (ViewOrientation_to_int (orientation vp) + VOR_NUM_ORIENT
                    + (if 0 <s direction then 1 else - 1)) VOR_NUM_ORIENT)"
  by (simp add: Rotate_def MarkDirty_def ComputeCursorPosition_keeps)

lemma Rotate_clockwise:
  assumes "0 <s direction"
  shows "orientation (Rotate world store vp direction) =
    (case orientation vp of VOR_NORTH \<Rightarrow> VOR_EAST | VOR_EAST \<Rightarrow> VOR_SOUTH
     | VOR_SOUTH \<Rightarrow> VOR_WEST | VOR_WEST \<Rightarrow> VOR_NORTH)"
  using assms
  by (cases "orientation vp")
    (simp_all add: Rotate_orientation VOR_NUM_ORIENT_def int32_mod_def ViewOrientation_of_int_def
      signed_modulo_int_def)

lemma Rotate_anticlockwise:
  assumes "\<not> 0 <s direction"
  shows "orientation (Rotate world store vp direction) =
    (case orientation vp of VOR_NORTH \<Rightarrow> VOR_WEST | VOR_EAST \<Rightarrow> VOR_NORTH
     | VOR_SOUTH \<Rightarrow> VOR_EAST | VOR_WEST \<Rightarrow> VOR_SOUTH)"
  using assms
  by (cases "orientation vp")
    (simp_all add: Rotate_orientation VOR_NUM_ORIENT_def int32_mod_def ViewOrientation_of_int_def
      signed_modulo_int_def)

lemma Rotate_four_times:
  "orientation (Rotate world store (Rotate world store (Rotate world store
     (Rotate world store vp direction) direction) direction) direction) = orientation vp"
proof (cases "0 <s direction")
  case True
  then show ?thesis
    by (cases "orientation vp") (simp_all add: Rotate_clockwise)
next
  case False
  then show ?thesis
    by (cases "orientation vp") (simp_all add: Rotate_anticlockwise)
qed

lemma Rotate_plus_one:
  assumes "0 <s direction"
  shows "sint (ViewOrientation_to_int (orientation (Rotate world store vp direction))) =
    (sint (ViewOrientation_to_int (orientation vp)) + 1) mod 4"
  using assms by (cases "orientation vp") (simp_all add: Rotate_clockwise)

lemma Rotate_minus_one:
  assumes "direction <s 0"
  shows "sint (ViewOrientation_to_int (orientation (Rotate world store vp direction))) =
    (sint (ViewOrientation_to_int (orientation vp)) - 1) mod 4"
proof -
  from assms have "\<not> 0 <s direction" by (simp add: word_sless_alt)
  then show ?thesis by (cases "orientation vp") (simp_all add: Rotate_anticlockwise)
qed

lemma Rotate_signals:
  "redraw_signals vp < redraw_signals (Rotate world store vp direction)"
proof -
  let ?vp = "vp\<lparr>orientation :=
                ViewOrientation_of_int
                  (int32_mod
                     (ViewOrientation_to_int (orientation vp) + VOR_NUM_ORIENT
                        + (if 0 <s direction then 1 else - 1))
                     VOR_NUM_ORIENT)\<rparr>"
  have "redraw_signals vp = redraw_signals ?vp" by simp
  also have "\<dots> \<le> redraw_signals (ComputeCursorPosition world store ?vp)"
    by (rule ComputeCursorPosition_keeps)
  also have "\<dots> < redraw_signals (Rotate world store vp direction)"
    by (simp add: Rotate_def MarkDirty_def)
  finally show ?thesis .
qed

text \<open>
  Claim C8. A call of \<^verbatim>\<open>Rotate\<close> with a positive direction moves the orientation on by one
  modulo 4, a call with a negative direction moves it back by one modulo 4; four calls with the
  same direction return the orientation to where it was; and every call signals a redraw.
\<close>

theorem Rotate_steps_by_one_and_signals:
  "(0 <s direction \<longrightarrow>
      sint (ViewOrientation_to_int (orientation (Rotate world store vp direction))) =
        (sint (ViewOrientation_to_int (orientation vp)) + 1) mod 4) \<and>
   (direction <s 0 \<longrightarrow>
      sint (ViewOrientation_to_int (orientation (Rotate world store vp direction))) =
        (sint (ViewOrientation_to_int (orientation vp)) - 1) mod 4) \<and>
   orientation (Rotate world store (Rotate world store (Rotate world store
     (Rotate world store vp direction) direction) direction) direction) = orientation vp \<and>
   redraw_signals vp < redraw_signals (Rotate world store vp direction)"
  using Rotate_plus_one [of direction world store vp] Rotate_minus_one [of direction world store vp]
    Rotate_four_times [of world store vp direction] Rotate_signals [of vp world store direction]
  by blast

theorem Rotate_steps_by_one_and_signals_witness:
  "(0 :: int32) <s 1 \<and> (- 1 :: int32) <s 0 \<and>
   sint (ViewOrientation_to_int
     (orientation (Rotate example_world example_store (example_viewport 256 256 VOR_WEST) 1)))
     = 0 \<and>
   sint (ViewOrientation_to_int
     (orientation (Rotate example_world example_store (example_viewport 256 256 VOR_NORTH) (- 1))))
     = 3 \<and>
   0 < redraw_signals (Rotate example_world example_store (example_viewport 256 256 VOR_WEST) 1)"
  using Rotate_steps_by_one_and_signals
      [of 1 example_world example_store "example_viewport 256 256 VOR_WEST"]
    Rotate_steps_by_one_and_signals
      [of "- 1" example_world example_store "example_viewport 256 256 VOR_NORTH"]
  by (simp add: example_viewport_def word_sless_alt)

section \<open>Voxels without a ground\<close>

lemma invalid_ground_ignored:
  assumes "invalid_ground voxel"
  shows "SpriteCollector_CollectVoxel store sc voxel xpos ypos zpos xn yn = sc"
    and "PixelFinder_CollectVoxel store pf voxel xpos ypos zpos xn yn = pf"
  using assms
  by (cases voxel; simp add: invalid_ground_def SpriteCollector_CollectVoxel_def
      PixelFinder_CollectVoxel_def PixelFinder_probe_def)+

lemma Collect_stack_idle:
  assumes "idle_on visit (set (voxels stack))"
  shows "Collect_stack visit vc stack xpos ypos world_x world_y north_x count = vc"
proof (induction "stack_height stack - count" arbitrary: count)
  case 0
  then show ?case by (subst Collect_stack.simps) simp
next
  case (Suc n)
  then have less: "count < stack_height stack" and "n = stack_height stack - Suc count"
    by simp_all
  then have next_one:
    "Collect_stack visit vc stack xpos ypos world_x world_y north_x (Suc count) = vc"
    by (intro Suc.hyps(1))
  from less have "voxels stack ! count \<in> set (voxels stack)"
    by (simp add: stack_height_def)
  with assms have "visit vc (voxels stack ! count) (of_nat xpos) (of_nat ypos)
      (voxel_zpos stack count) north_x (voxel_north_y vc stack world_x world_y count) = vc"
    by (simp add: idle_on_def)
  with less next_one show ?case
    by (subst Collect_stack.simps) simp
qed

lemma Collect_ypos_idle:
  assumes "\<forall>y < unat (GetYSize world). idle_on visit (set (voxels (GetStack world xpos y)))"
  shows "Collect_ypos world visit vc xpos world_x ypos = vc"
proof (induction "unat (GetYSize world) - ypos" arbitrary: ypos)
  case 0
  then show ?case by (subst Collect_ypos.simps) simp
next
  case (Suc n)
  then have less: "ypos < unat (GetYSize world)" and "n = unat (GetYSize world) - Suc ypos"
    by simp_all
  then have next_one: "Collect_ypos world visit vc xpos world_x (Suc ypos) = vc"
    by (intro Suc.hyps(1))
  from less assms have "idle_on visit (set (voxels (GetStack world xpos ypos)))"
    by simp
  then have "Collect_stack visit vc (GetStack world xpos ypos) xpos ypos world_x
      (column_world_y vc ypos) (ComputeX vc world_x (column_world_y vc ypos)) 0 = vc"
    by (rule Collect_stack_idle)
  with less next_one show ?case
    by (subst Collect_ypos.simps) simp
qed

lemma Collect_xpos_idle:
  assumes "\<forall>x < unat (GetXSize world). \<forall>y < unat (GetYSize world).
      idle_on visit (set (voxels (GetStack world x y)))"
  shows "Collect_xpos world visit vc xpos = vc"
proof (induction "unat (GetXSize world) - xpos" arbitrary: xpos)
  case 0
  then show ?case by (subst Collect_xpos.simps) simp
next
  case (Suc n)
  then have less: "xpos < unat (GetXSize world)" and "n = unat (GetXSize world) - Suc xpos"
    by simp_all
  then have next_one: "Collect_xpos world visit vc (Suc xpos) = vc"
    by (intro Suc.hyps(1))
  from less assms
  have "\<forall>y < unat (GetYSize world). idle_on visit (set (voxels (GetStack world xpos y)))"
    by simp
  then have "Collect_ypos world visit vc xpos (column_world_x vc xpos) 0 = vc"
    by (rule Collect_ypos_idle)
  with less next_one show ?case
    by (subst Collect_xpos.simps) simp
qed

lemma Collect_all_invalid:
  assumes "world_all_invalid world"
  shows "Collect world (SpriteCollector_CollectVoxel store) sc = sc"
    and "Collect world (PixelFinder_CollectVoxel store) pf = pf"
proof -
  have "\<forall>x < unat (GetXSize world). \<forall>y < unat (GetYSize world).
      idle_on (SpriteCollector_CollectVoxel store) (set (voxels (GetStack world x y)))"
    and "\<forall>x < unat (GetXSize world). \<forall>y < unat (GetYSize world).
      idle_on (PixelFinder_CollectVoxel store) (set (voxels (GetStack world x y)))"
    using assms by (simp_all add: world_all_invalid_def idle_on_def invalid_ground_ignored)
  then show "Collect world (SpriteCollector_CollectVoxel store) sc = sc"
    and "Collect world (PixelFinder_CollectVoxel store) pf = pf"
    unfolding Collect_def by (simp_all only: Collect_xpos_idle)
qed

lemma pick_all_invalid:
  assumes "world_all_invalid world"
  shows "\<not> found (cursor_collector world store vp)"
    and "ComputeCursorPosition world store vp = vp"
proof -
  show "\<not> found (cursor_collector world store vp)"
    using assms
    by (simp add: cursor_collector_def Let_def Collect_all_invalid SetWindowSize_def
        PixelFinder_new_def)
  then show "ComputeCursorPosition world store vp = vp"
    by (simp add: ComputeCursorPosition_def Let_def)
qed

text \<open>
  Claim C9. For a surface voxel whose ground type is invalid the sprite collector and the pixel
  finder return unchanged: no draw command is inserted, no result recorded. Over a world all of
  whose voxels are such voxels (the world with a single such voxel among them) the sprite
  collector that starts with no draw commands ends with none, and the pick of
  \<^verbatim>\<open>ComputeCursorPosition\<close> ends with \<^verbatim>\<open>found\<close> false and leaves the viewport as it is. All of these
  are ordinary results of total functions.
\<close>

theorem invalid_ground_contributes_nothing:
  "(ground_type svd = GTP_INVALID \<longrightarrow>
      SpriteCollector_CollectVoxel store sc (VT_SURFACE svd) xpos ypos zpos xn yn = sc \<and>
      PixelFinder_CollectVoxel store pf (VT_SURFACE svd) xpos ypos zpos xn yn = pf) \<and>
   (world_all_invalid world \<longrightarrow>
      draw_images
        (Collect world (SpriteCollector_CollectVoxel store)
           (SetXYOffset (SetWindowSize (SpriteCollector_new xv yv zv tw th ori) wx wy ww wh) xo yo))
        = [] \<and>
      \<not> found (cursor_collector world store vp) \<and>
      ComputeCursorPosition world store vp = vp)"
proof -
  have "ground_type svd = GTP_INVALID \<Longrightarrow> invalid_ground (VT_SURFACE svd)"
    by (simp add: invalid_ground_def)
  moreover have "draw_images
      (SetXYOffset (SetWindowSize (SpriteCollector_new xv yv zv tw th ori) wx wy ww wh) xo yo) = []"
    by (simp add: SetXYOffset_def SetWindowSize_def SpriteCollector_new_def)
  ultimately show ?thesis
    using invalid_ground_ignored(1) [of "VT_SURFACE svd" store sc xpos ypos zpos xn yn]
      invalid_ground_ignored(2) [of "VT_SURFACE svd" store pf xpos ypos zpos xn yn]
      Collect_all_invalid(1) [of world store] pick_all_invalid [of world store vp]
    by auto
qed

theorem invalid_ground_contributes_nothing_witness:
  "ground_type \<lparr>ground_type = GTP_INVALID, ground_slope = 0\<rparr> = GTP_INVALID \<and>
   world_all_invalid invalid_world \<and>
   draw_images
     (Collect invalid_world (SpriteCollector_CollectVoxel example_store)
        (SetXYOffset (SetWindowSize (SpriteCollector_new 128 128 2048 64 16 VOR_NORTH) (- 320) (- 240)
           640 480) 0 0)) = [] \<and>
   \<not> found (cursor_collector invalid_world example_store (Viewport_new invalid_world 0 0 640 480))"
  using invalid_ground_contributes_nothing
    [where svd = "\<lparr>ground_type = GTP_INVALID, ground_slope = 0\<rparr>" and store = example_store
       and world = invalid_world and xv = 128 and yv = 128 and zv = 2048 and tw = 64 and th = 16
       and ori = VOR_NORTH and wx = "- 320" and wy = "- 240" and ww = 640 and wh = 480
       and xo = 0 and yo = 0 and vp = "Viewport_new invalid_world 0 0 640 480"]
  by (simp add: world_all_invalid_def invalid_world_def invalid_ground_def)

section \<open>The pixel finder\<close>

lemma PixelFinder_skips:
  assumes "found pf" and "PixelFinder_dist (orient pf) xpos ypos zpos \<le>s distance pf"
  shows "PixelFinder_probe store pf voxel xpos ypos zpos xn yn = None"
    and "PixelFinder_CollectVoxel store pf voxel xpos ypos zpos xn yn = pf"
proof -
  show "PixelFinder_probe store pf voxel xpos ypos zpos xn yn = None"
    using assms by (cases voxel) (simp_all add: PixelFinder_probe_def split: option.splits)
  then show "PixelFinder_CollectVoxel store pf voxel xpos ypos zpos xn yn = pf"
    by (simp add: PixelFinder_CollectVoxel_def)
qed

lemma PixelFinder_CollectVoxel_same_view:
  "same_view (PixelFinder_CollectVoxel store pf voxel xpos ypos zpos xn yn) pf"
  by (simp add: same_view_def PixelFinder_CollectVoxel_def Let_def split: option.splits prod.splits)

lemma same_view_trans: "same_view a b \<Longrightarrow> same_view b c \<Longrightarrow> same_view a c"
  by (simp add: same_view_def)

lemma PixelFinder_visits_same_view: "same_view (PixelFinder_visits store pf vs) pf"
proof (induction vs arbitrary: pf)
  case Nil
  show ?case by (simp add: PixelFinder_visits_def same_view_def)
next
  case (Cons v vs)
  have "same_view (PixelFinder_visit store v pf) pf"
    by (cases v) (simp add: PixelFinder_visit_def PixelFinder_CollectVoxel_same_view)
  with Cons [of "PixelFinder_visit store v pf"] show ?case
    by (auto simp add: PixelFinder_visits_def intro: same_view_trans)
qed

lemma nearer_found_kept:
  assumes "nearer_found k pf"
  shows "nearer_found k (PixelFinder_CollectVoxel store pf voxel xpos ypos zpos xn yn)"
proof (cases "PixelFinder_CollectVoxel store pf voxel xpos ypos zpos xn yn = pf")
  case True
  with assms show ?thesis by simp
next
  case False
  then obtain spr xo yo
    where probe: "PixelFinder_probe store pf voxel xpos ypos zpos xn yn = Some (spr, xo, yo)"
      and px: "GetPixel spr xo yo \<noteq> 0"
    by (auto simp add: PixelFinder_CollectVoxel_def Let_def split: option.splits if_splits)
  from probe assms have "\<not> PixelFinder_dist (orient pf) xpos ypos zpos \<le>s distance pf"
    using PixelFinder_skips(1) [of pf xpos ypos zpos store voxel xn yn]
    by (auto simp add: nearer_found_def)
  with assms have "k \<le>s PixelFinder_dist (orient pf) xpos ypos zpos"
    by (simp add: nearer_found_def word_sle_eq)
  with probe px show ?thesis
    by (simp add: nearer_found_def PixelFinder_CollectVoxel_def Let_def)
qed

lemma nearer_found_kept_visits:
  "nearer_found k pf \<Longrightarrow> nearer_found k (PixelFinder_visits store pf vs)"
proof (induction vs arbitrary: pf)
  case Nil
  then show ?case by (simp add: PixelFinder_visits_def)
next
  case (Cons v vs)
  from Cons.prems have "nearer_found k (PixelFinder_visit store v pf)"
    by (cases v) (simp add: PixelFinder_visit_def nearer_found_kept)
  from Cons.IH [OF this] show ?case by (simp add: PixelFinder_visits_def)
qed

lemma open_probe_same_view:
  assumes "same_view pf pf'"
  shows "PixelFinder_probe store (pf\<lparr>found := False\<rparr>) voxel xpos ypos zpos xn yn
    = PixelFinder_probe store (pf'\<lparr>found := False\<rparr>) voxel xpos ypos zpos xn yn"
proof (cases voxel)
  case (VT_SURFACE svd)
  with assms show ?thesis
    by (cases "GetSurfaceSprite store (ground_type svd) (ground_slope svd) (tile_width pf')
          (orient pf')")
      (simp_all add: PixelFinder_probe_def same_view_def)
next
  case VT_OTHER
  then show ?thesis by (simp add: PixelFinder_probe_def)
qed

lemma opaque_under_probe_same_view:
  assumes "same_view pf pf'"
  shows "opaque_under_probe store pf v = opaque_under_probe store pf' v"
proof -
  obtain voxel xpos ypos zpos xn yn where v: "v = (voxel, xpos, ypos, zpos, xn, yn)"
    by (cases v)
  show ?thesis
    unfolding opaque_under_probe_def v prod.case
    by (simp only: open_probe_same_view [OF assms])
qed

lemma visit_key_same_view: "same_view pf pf' \<Longrightarrow> visit_key pf v = visit_key pf' v"
  by (cases v) (simp add: visit_key_def same_view_def)

lemma opaque_visit_found:
  assumes "opaque_under_probe store pf v"
  shows "nearer_found (visit_key pf v) (PixelFinder_visit store v pf)"
proof -
  obtain voxel xpos ypos zpos xn yn where v: "v = (voxel, xpos, ypos, zpos, xn, yn)"
    by (cases v)
  from assms v obtain spr xo yo
    where open_probe: "PixelFinder_probe store (pf\<lparr>found := False\<rparr>) voxel xpos ypos zpos xn yn
        = Some (spr, xo, yo)"
      and px: "GetPixel spr xo yo \<noteq> 0"
    by (auto simp add: opaque_under_probe_def split: option.splits)
  show ?thesis
  proof (cases "found pf \<and> PixelFinder_dist (orient pf) xpos ypos zpos \<le>s distance pf")
    case True
    then have "PixelFinder_CollectVoxel store pf voxel xpos ypos zpos xn yn = pf"
      by (simp add: PixelFinder_skips)
    with True v show ?thesis
      by (simp add: nearer_found_def visit_key_def PixelFinder_visit_def)
  next
    case False
    with open_probe
    have "PixelFinder_probe store pf voxel xpos ypos zpos xn yn = Some (spr, xo, yo)"
      by (cases voxel) (auto simp add: PixelFinder_probe_def split: option.splits if_splits)
    with px v show ?thesis
      by (simp add: nearer_found_def visit_key_def PixelFinder_visit_def
          PixelFinder_CollectVoxel_def Let_def word_sle_eq)
  qed
qed

lemma nearer_found_skips:
  assumes "nearer_found (visit_key pf v) pf"
  shows "PixelFinder_visit store v pf = pf"
  using assms
  by (cases v) (simp add: nearer_found_def visit_key_def PixelFinder_visit_def PixelFinder_skips)

lemma PixelFinder_visits_append:
  "PixelFinder_visits store pf (us @ vs) = PixelFinder_visits store (PixelFinder_visits store pf us) vs"
  by (simp add: PixelFinder_visits_def)

lemma later_equal_key_is_skipped:
  assumes opaque: "opaque_under_probe store pf a"
    and key: "visit_key pf b = visit_key pf a"
  shows "PixelFinder_visits store pf (pre @ a # mid @ b # post)
    = PixelFinder_visits store pf (pre @ a # mid @ post)"
proof -
  let ?p1 = "PixelFinder_visits store pf pre"
  let ?p2 = "PixelFinder_visit store a ?p1"
  let ?p3 = "PixelFinder_visits store ?p2 mid"
  have v1: "same_view ?p1 pf" by (rule PixelFinder_visits_same_view)
  then have "opaque_under_probe store ?p1 a"
    using opaque by (simp add: opaque_under_probe_same_view)
  then have "nearer_found (visit_key ?p1 a) ?p2" by (rule opaque_visit_found)
  then have "nearer_found (visit_key pf a) ?p2"
    using v1 by (simp add: visit_key_same_view)
  then have n3: "nearer_found (visit_key pf a) ?p3" by (rule nearer_found_kept_visits)
  have "same_view ?p2 ?p1"
    by (cases a) (simp add: PixelFinder_visit_def PixelFinder_CollectVoxel_same_view)
  then have "same_view ?p3 pf"
    using v1 PixelFinder_visits_same_view [of store ?p2 mid] by (blast intro: same_view_trans)
  then have "visit_key ?p3 b = visit_key pf a"
    using key by (simp add: visit_key_same_view)
  with n3 have "PixelFinder_visit store b ?p3 = ?p3"
    by (intro nearer_found_skips) simp
  then show ?thesis
    by (simp add: PixelFinder_visits_def)
qed

lemma first_of_two_is_recorded:
  assumes opaque: "opaque_under_probe store pf (va, xa, ya, za, xna, yna)"
    and key: "visit_key pf b = visit_key pf (va, xa, ya, za, xna, yna)"
    and fresh: "\<not> nearer_found (visit_key pf (va, xa, ya, za, xna, yna)) pf"
  shows "found (PixelFinder_visits store pf [(va, xa, ya, za, xna, yna), b])"
    and "xvoxel (PixelFinder_visits store pf [(va, xa, ya, za, xna, yna), b]) = ucast xa"
    and "yvoxel (PixelFinder_visits store pf [(va, xa, ya, za, xna, yna), b]) = ucast ya"
    and "zvoxel (PixelFinder_visits store pf [(va, xa, ya, za, xna, yna), b]) = ucast za"
proof -
  let ?a = "(va, xa, ya, za, xna, yna)"
  from opaque obtain spr xo yo
    where open_probe: "PixelFinder_probe store (pf\<lparr>found := False\<rparr>) va xa ya za xna yna
        = Some (spr, xo, yo)"
      and px: "GetPixel spr xo yo \<noteq> 0"
    by (auto simp add: opaque_under_probe_def split: option.splits)
  from fresh have "\<not> (found pf \<and> PixelFinder_dist (orient pf) xa ya za \<le>s distance pf)"
    by (simp add: nearer_found_def visit_key_def)
  with open_probe have "PixelFinder_probe store pf va xa ya za xna yna = Some (spr, xo, yo)"
    by (cases va) (auto simp add: PixelFinder_probe_def split: option.splits if_splits)
  with px have rec: "PixelFinder_visit store ?a pf =
      pf\<lparr>distance := PixelFinder_dist (orient pf) xa ya za, found := True,
         xvoxel := ucast xa, yvoxel := ucast ya, zvoxel := ucast za,
         pixel := GetPixel spr xo yo\<rparr>"
    by (simp add: PixelFinder_visit_def PixelFinder_CollectVoxel_def Let_def)
  have "PixelFinder_visits store pf ([] @ ?a # [] @ b # []) =
      PixelFinder_visits store pf ([] @ ?a # [] @ [])"
    using opaque key by (rule later_equal_key_is_skipped)
  then have "PixelFinder_visits store pf [?a, b] = PixelFinder_visit store ?a pf"
    by (simp add: PixelFinder_visits_def)
  then show "found (PixelFinder_visits store pf [?a, b])"
    and "xvoxel (PixelFinder_visits store pf [?a, b]) = ucast xa"
    and "yvoxel (PixelFinder_visits store pf [?a, b]) = ucast ya"
    and "zvoxel (PixelFinder_visits store pf [?a, b]) = ucast za"
    by (simp_all add: rec)
qed

text \<open>
  Claim C4. When a result has been found whose distance is greater than or equal to the depth
  key of the visited voxel, the pixel finder leaves before sampling and returns unchanged.
  Consequently, of two visits with the same depth key, the first with a non-transparent pixel
  under the probe: the second never changes the result, wherever the two stand in the
  traversal; and when no result at least as near was found before, the two visits leave the
  position of the first one recorded.
\<close>

theorem first_found_wins_ties:
  "(found pf \<and> PixelFinder_dist (orient pf) xpos ypos zpos \<le>s distance pf \<longrightarrow>
      PixelFinder_probe store pf voxel xpos ypos zpos xn yn = None \<and>
      PixelFinder_CollectVoxel store pf voxel xpos ypos zpos xn yn = pf) \<and>
   (opaque_under_probe store pf a \<and> visit_key pf b = visit_key pf a \<longrightarrow>
      PixelFinder_visits store pf (pre @ a # mid @ b # post)
        = PixelFinder_visits store pf (pre @ a # mid @ post)) \<and>
   (opaque_under_probe store pf (va, xa, ya, za, xna, yna) \<and>
    visit_key pf b = visit_key pf (va, xa, ya, za, xna, yna) \<and>
    \<not> nearer_found (visit_key pf (va, xa, ya, za, xna, yna)) pf \<longrightarrow>
      found (PixelFinder_visits store pf [(va, xa, ya, za, xna, yna), b]) \<and>
      xvoxel (PixelFinder_visits store pf [(va, xa, ya, za, xna, yna), b]) = ucast xa \<and>
      yvoxel (PixelFinder_visits store pf [(va, xa, ya, za, xna, yna), b]) = ucast ya \<and>
      zvoxel (PixelFinder_visits store pf [(va, xa, ya, za, xna, yna), b]) = ucast za)"
  using PixelFinder_skips [of pf xpos ypos zpos store voxel xn yn]
    later_equal_key_is_skipped [of store pf a b pre mid post]
    first_of_two_is_recorded [of store pf va xa ya za xna yna b]
  by blast

lemmas example_defs =
  tie_first_def tie_second_def example_finder_def example_voxel_def example_store_def
  example_sprite_def PixelFinder_new_def GTP_INVALID_def

lemmas eval_defs =
  PixelFinder_probe_def PixelFinder_CollectVoxel_def PixelFinder_visit_def PixelFinder_visits_def
  PixelFinder_dist_def visit_key_def opaque_under_probe_def nearer_found_def promote_s16_def
  word_sle_eq word_sless_alt

theorem first_found_wins_ties_witness:
  "found (PixelFinder_visits example_store (example_finder 0 0) [tie_first]) \<and>
   PixelFinder_dist (orient (PixelFinder_visits example_store (example_finder 0 0) [tie_first])) 1 0 0
     \<le>s distance (PixelFinder_visits example_store (example_finder 0 0) [tie_first]) \<and>
   opaque_under_probe example_store (example_finder 0 0) tie_first \<and>
   visit_key (example_finder 0 0) tie_second = visit_key (example_finder 0 0) tie_first \<and>
   \<not> nearer_found (visit_key (example_finder 0 0) tie_first) (example_finder 0 0) \<and>
   PixelFinder_CollectVoxel example_store
     (PixelFinder_visits example_store (example_finder 0 0) [tie_first]) example_voxel 1 0 0 0 0
     = PixelFinder_visits example_store (example_finder 0 0) [tie_first] \<and>
   xvoxel (PixelFinder_visits example_store (example_finder 0 0) [tie_first, tie_second]) = 0 \<and>
   yvoxel (PixelFinder_visits example_store (example_finder 0 0) [tie_first, tie_second]) = 1"
proof -
  have hyps:
    "found (PixelFinder_visits example_store (example_finder 0 0) [tie_first])"
    "PixelFinder_dist (orient (PixelFinder_visits example_store (example_finder 0 0) [tie_first])) 1 0 0
       \<le>s distance (PixelFinder_visits example_store (example_finder 0 0) [tie_first])"
    "opaque_under_probe example_store (example_finder 0 0) tie_first"
    "visit_key (example_finder 0 0) tie_second = visit_key (example_finder 0 0) tie_first"
    "\<not> nearer_found (visit_key (example_finder 0 0) tie_first) (example_finder 0 0)"
    by (simp_all add: example_defs eval_defs)
  show ?thesis
    using hyps
      first_found_wins_ties
        [where pf = "PixelFinder_visits example_store (example_finder 0 0) [tie_first]"
           and xpos = 1 and ypos = 0 and zpos = 0 and store = example_store
           and voxel = example_voxel and xn = 0 and yn = 0]
      first_found_wins_ties
        [where pf = "example_finder 0 0" and store = example_store and b = tie_second
           and va = example_voxel and xa = 0 and ya = 1 and za = 0 and xna = 0 and yna = 0]
    by (simp add: tie_first_def)
qed

section \<open>Sampling a sprite\<close>

lemma PixelFinder_probe_candidate:
  assumes "ground_type svd \<noteq> GTP_INVALID"
    and "GetSurfaceSprite store (ground_type svd) (ground_slope svd) (tile_width pf) (orient pf)
           = Some spr"
    and "\<not> (found pf \<and> PixelFinder_dist (orient pf) xpos ypos zpos \<le>s distance pf)"
  shows "PixelFinder_probe store pf (VT_SURFACE svd) xpos ypos zpos xn yn =
    (if probe_offset (pt_x (rect_base (rect pf))) xn (spr_xoffset spr) <s 0
        \<or> probe_offset (pt_y (rect_base (rect pf))) yn (spr_yoffset spr) <s 0
     then None
     else Some (spr, probe_offset (pt_x (rect_base (rect pf))) xn (spr_xoffset spr),
                probe_offset (pt_y (rect_base (rect pf))) yn (spr_yoffset spr)))"
  using assms by (auto simp add: PixelFinder_probe_def probe_offset_def Let_def)

lemma ucast_promote_s16: "(ucast (promote_s16 w) :: int16) = w"
  unfolding promote_s16_def
proof (rule bit_word_eqI)
  fix n
  assume "n < LENGTH(16)"
  then show "bit (ucast (scast w :: int32) :: int16) n = bit w n"
    by (cases "n = 15") (auto simp add: bit_unsigned_iff bit_signed_iff min_def)
qed

lemma probe_offset_placed: "probe_offset (north + promote_s16 so + promote_s16 off) north so = off"
proof -
  have "north + promote_s16 so + promote_s16 off - north - promote_s16 so = promote_s16 off"
    by simp
  then show ?thesis by (simp only: probe_offset_def ucast_promote_s16)
qed

lemma PixelFinder_probe_any_offset:
  assumes "ground_type svd \<noteq> GTP_INVALID"
    and "GetSurfaceSprite store (ground_type svd) (ground_slope svd) (tile_width pf) (orient pf)
           = Some spr"
    and "\<not> (found pf \<and> PixelFinder_dist (orient pf) xpos ypos zpos \<le>s distance pf)"
    and "\<not> xo <s 0" and "\<not> yo <s 0"
    and "pt_x (rect_base (rect pf)) = xn + promote_s16 (spr_xoffset spr) + promote_s16 xo"
    and "pt_y (rect_base (rect pf)) = yn + promote_s16 (spr_yoffset spr) + promote_s16 yo"
  shows "PixelFinder_probe store pf (VT_SURFACE svd) xpos ypos zpos xn yn = Some (spr, xo, yo)"
  using assms(4-7) PixelFinder_probe_candidate [OF assms(1-3), of xn yn]
  by (simp add: probe_offset_placed)

lemma far_probe_example:
  "PixelFinder_probe example_store (example_finder 5 7) example_voxel 0 0 0 0 0
     = Some (example_sprite, 5, 7)"
  by (simp add: example_defs eval_defs)

lemma PixelFinder_CollectVoxel_unexcluded:
  assumes "ground_type svd \<noteq> GTP_INVALID"
    and "GetSurfaceSprite store (ground_type svd) (ground_slope svd) (tile_width pf) (orient pf)
           = Some spr"
    and "\<not> (found pf \<and> PixelFinder_dist (orient pf) xpos ypos zpos \<le>s distance pf)"
  shows "PixelFinder_CollectVoxel store pf (VT_SURFACE svd) xpos ypos zpos xn yn =
    (if probe_offset (pt_x (rect_base (rect pf))) xn (spr_xoffset spr) <s 0
        \<or> probe_offset (pt_y (rect_base (rect pf))) yn (spr_yoffset spr) <s 0
     then pf
     else if GetPixel spr (probe_offset (pt_x (rect_base (rect pf))) xn (spr_xoffset spr))
               (probe_offset (pt_y (rect_base (rect pf))) yn (spr_yoffset spr)) = 0
     then pf
     else pf\<lparr>distance := PixelFinder_dist (orient pf) xpos ypos zpos, found := True,
             xvoxel := ucast xpos, yvoxel := ucast ypos, zvoxel := ucast zpos,
             pixel := GetPixel spr (probe_offset (pt_x (rect_base (rect pf))) xn (spr_xoffset spr))
                        (probe_offset (pt_y (rect_base (rect pf))) yn (spr_yoffset spr))\<rparr>)"
  using assms(3) unfolding PixelFinder_CollectVoxel_candidate [OF assms(1,2)]
  by (simp only: if_False)

lemma PixelFinder_CollectVoxel_samples:
  assumes "ground_type svd \<noteq> GTP_INVALID"
    and "GetSurfaceSprite store (ground_type svd) (ground_slope svd) (tile_width pf) (orient pf)
           = Some spr"
    and "\<not> (found pf \<and> PixelFinder_dist (orient pf) xpos ypos zpos \<le>s distance pf)"
    and "\<not> xo <s 0" and "\<not> yo <s 0"
    and "pt_x (rect_base (rect pf)) = xn + promote_s16 (spr_xoffset spr) + promote_s16 xo"
    and "pt_y (rect_base (rect pf)) = yn + promote_s16 (spr_yoffset spr) + promote_s16 yo"
  shows "PixelFinder_CollectVoxel store pf (VT_SURFACE svd) xpos ypos zpos xn yn =
    (if GetPixel spr xo yo = 0 then pf
     else pf\<lparr>distance := PixelFinder_dist (orient pf) xpos ypos zpos, found := True,
             xvoxel := ucast xpos, yvoxel := ucast ypos, zvoxel := ucast zpos,
             pixel := GetPixel spr xo yo\<rparr>)"
proof -
  have "PixelFinder_probe store pf (VT_SURFACE svd) xpos ypos zpos xn yn = Some (spr, xo, yo)"
    using assms by (rule PixelFinder_probe_any_offset)
  then show ?thesis by (simp add: PixelFinder_CollectVoxel_def Let_def)
qed

lemma far_pixel_example:
  "found (PixelFinder_CollectVoxel far_store (example_finder 5 7) example_voxel 0 0 0 0 0)"
  "pixel (PixelFinder_CollectVoxel far_store (example_finder 5 7) example_voxel 0 0 0 0 0) = 9"
  by (simp_all add: far_store_def far_sprite_def example_finder_def example_voxel_def
      PixelFinder_new_def GTP_INVALID_def eval_defs)

text \<open>
  Claim C10. For a surface voxel with a valid ground type and a resolved sprite that no earlier
  result excludes, \<^verbatim>\<open>PixelFinder::CollectVoxel\<close> leaves without sampling exactly when the horizontal
  or the vertical offset of the probe within the sprite is negative. For every other pair of
  offsets, whatever the sprite's width and height are, its result is decided by the value of
  \<^verbatim>\<open>GetPixel\<close> at these offsets: unchanged when the value is zero, and otherwise the voxel
  recorded with this value as its pixel. So \<^verbatim>\<open>GetPixel\<close> is called with offsets at or beyond the
  sprite's dimensions: on a sprite of one pixel whose \<^verbatim>\<open>GetPixel\<close> is zero everywhere but at
  (5, 7), a probe at these offsets is found with the pixel value 9.
\<close>

theorem PixelFinder_samples_without_upper_bound:
  "(ground_type svd \<noteq> GTP_INVALID \<and>
    GetSurfaceSprite store (ground_type svd) (ground_slope svd) (tile_width pf) (orient pf)
      = Some spr \<and>
    \<not> (found pf \<and> PixelFinder_dist (orient pf) xpos ypos zpos \<le>s distance pf) \<longrightarrow>
      PixelFinder_probe store pf (VT_SURFACE svd) xpos ypos zpos xn yn =
        (if probe_offset (pt_x (rect_base (rect pf))) xn (spr_xoffset spr) <s 0
            \<or> probe_offset (pt_y (rect_base (rect pf))) yn (spr_yoffset spr) <s 0
         then None
         else Some (spr, probe_offset (pt_x (rect_base (rect pf))) xn (spr_xoffset spr),
                    probe_offset (pt_y (rect_base (rect pf))) yn (spr_yoffset spr))) \<and>
      PixelFinder_CollectVoxel store pf (VT_SURFACE svd) xpos ypos zpos xn yn =
        (if probe_offset (pt_x (rect_base (rect pf))) xn (spr_xoffset spr) <s 0
            \<or> probe_offset (pt_y (rect_base (rect pf))) yn (spr_yoffset spr) <s 0
         then pf
         else if GetPixel spr (probe_offset (pt_x (rect_base (rect pf))) xn (spr_xoffset spr))
                   (probe_offset (pt_y (rect_base (rect pf))) yn (spr_yoffset spr)) = 0
         then pf
         else pf\<lparr>distance := PixelFinder_dist (orient pf) xpos ypos zpos, found := True,
                 xvoxel := ucast xpos, yvoxel := ucast ypos, zvoxel := ucast zpos,
                 pixel :=
                   GetPixel spr (probe_offset (pt_x (rect_base (rect pf))) xn (spr_xoffset spr))
                     (probe_offset (pt_y (rect_base (rect pf))) yn (spr_yoffset spr))\<rparr>) \<and>
      (\<not> xo <s 0 \<and> \<not> yo <s 0 \<and>
       pt_x (rect_base (rect pf)) = xn + promote_s16 (spr_xoffset spr) + promote_s16 xo \<and>
       pt_y (rect_base (rect pf)) = yn + promote_s16 (spr_yoffset spr) + promote_s16 yo \<longrightarrow>
         PixelFinder_probe store pf (VT_SURFACE svd) xpos ypos zpos xn yn = Some (spr, xo, yo) \<and>
         PixelFinder_CollectVoxel store pf (VT_SURFACE svd) xpos ypos zpos xn yn =
           (if GetPixel spr xo yo = 0 then pf
            else pf\<lparr>distance := PixelFinder_dist (orient pf) xpos ypos zpos, found := True,
                    xvoxel := ucast xpos, yvoxel := ucast ypos, zvoxel := ucast zpos,
                    pixel := GetPixel spr xo yo\<rparr>))) \<and>
   (\<exists>store' pf' voxel' xpos' ypos' zpos' xn' yn' spr' xo' yo'.
      PixelFinder_probe store' pf' voxel' xpos' ypos' zpos' xn' yn' = Some (spr', xo', yo') \<and>
      uint (spr_width spr') \<le> sint xo' \<and> uint (spr_height spr') \<le> sint yo') \<and>
   GetPixel far_sprite x y = (if x = 5 \<and> y = 7 then 9 else 0) \<and>
   spr_width far_sprite = 1 \<and> spr_height far_sprite = 1 \<and>
   GetSurfaceSprite far_store gtype slope tw ori = Some far_sprite \<and>
   found (PixelFinder_CollectVoxel far_store (example_finder 5 7) example_voxel 0 0 0 0 0) \<and>
   pixel (PixelFinder_CollectVoxel far_store (example_finder 5 7) example_voxel 0 0 0 0 0) = 9"
proof -
  have "uint (spr_width example_sprite) \<le> sint (5 :: int16)"
    and "uint (spr_height example_sprite) \<le> sint (7 :: int16)"
    by (simp_all add: example_sprite_def)
  with far_probe_example
  have ex: "\<exists>store' pf' voxel' xpos' ypos' zpos' xn' yn' spr' xo' yo'.
      PixelFinder_probe store' pf' voxel' xpos' ypos' zpos' xn' yn' = Some (spr', xo', yo') \<and>
      uint (spr_width spr') \<le> sint xo' \<and> uint (spr_height spr') \<le> sint yo'"
    by blast
  have far: "GetPixel far_sprite x y = (if x = 5 \<and> y = 7 then 9 else 0)"
    "spr_width far_sprite = 1" "spr_height far_sprite = 1"
    "GetSurfaceSprite far_store gtype slope tw ori = Some far_sprite"
    by (simp_all add: far_sprite_def far_store_def)
  note parts =
    PixelFinder_probe_candidate [of svd store pf spr xpos ypos zpos xn yn]
    PixelFinder_CollectVoxel_unexcluded [of svd store pf spr xpos ypos zpos xn yn]
    PixelFinder_probe_any_offset [of svd store pf spr xpos ypos zpos xo yo xn yn]
    PixelFinder_CollectVoxel_samples [of svd store pf spr xpos ypos zpos xo yo xn yn]
  show ?thesis
    by (intro conjI impI; (elim conjE)?; (rule parts ex far far_pixel_example; assumption))
qed

theorem PixelFinder_samples_without_upper_bound_witness:
  "ground_type \<lparr>ground_type = 0, ground_slope = 0\<rparr> \<noteq> GTP_INVALID \<and>
   GetSurfaceSprite far_store (ground_type \<lparr>ground_type = 0, ground_slope = 0\<rparr>)
     (ground_slope \<lparr>ground_type = 0, ground_slope = 0\<rparr>) (tile_width (example_finder 5 7))
     (orient (example_finder 5 7)) = Some far_sprite \<and>
   \<not> (found (example_finder 5 7) \<and>
      PixelFinder_dist (orient (example_finder 5 7)) 0 0 0 \<le>s distance (example_finder 5 7)) \<and>
   \<not> (5 :: int16) <s 0 \<and> \<not> (7 :: int16) <s 0 \<and>
   pt_x (rect_base (rect (example_finder 5 7)))
     = 0 + promote_s16 (spr_xoffset far_sprite) + promote_s16 5 \<and>
   pt_y (rect_base (rect (example_finder 5 7)))
     = 0 + promote_s16 (spr_yoffset far_sprite) + promote_s16 7 \<and>
   spr_width far_sprite = 1 \<and> spr_height far_sprite = 1 \<and>
   GetPixel far_sprite 5 7 = 9 \<and> GetPixel far_sprite 0 0 = 0 \<and>
   PixelFinder_probe far_store (example_finder 5 7)
     (VT_SURFACE \<lparr>ground_type = 0, ground_slope = 0\<rparr>) 0 0 0 0 0 = Some (far_sprite, 5, 7) \<and>
   found (PixelFinder_CollectVoxel far_store (example_finder 5 7)
            (VT_SURFACE \<lparr>ground_type = 0, ground_slope = 0\<rparr>) 0 0 0 0 0) \<and>
   pixel (PixelFinder_CollectVoxel far_store (example_finder 5 7)
            (VT_SURFACE \<lparr>ground_type = 0, ground_slope = 0\<rparr>) 0 0 0 0 0) = 9"
proof -
  have hyps:
    "ground_type \<lparr>ground_type = 0, ground_slope = 0\<rparr> \<noteq> GTP_INVALID"
    "GetSurfaceSprite far_store (ground_type \<lparr>ground_type = 0, ground_slope = 0\<rparr>)
       (ground_slope \<lparr>ground_type = 0, ground_slope = 0\<rparr>) (tile_width (example_finder 5 7))
       (orient (example_finder 5 7)) = Some far_sprite"
    "\<not> (found (example_finder 5 7) \<and>
       PixelFinder_dist (orient (example_finder 5 7)) 0 0 0 \<le>s distance (example_finder 5 7))"
    "\<not> (5 :: int16) <s 0" "\<not> (7 :: int16) <s 0"
    "pt_x (rect_base (rect (example_finder 5 7)))
       = 0 + promote_s16 (spr_xoffset far_sprite) + promote_s16 5"
    "pt_y (rect_base (rect (example_finder 5 7)))
       = 0 + promote_s16 (spr_yoffset far_sprite) + promote_s16 7"
    by (simp_all add: far_store_def example_finder_def PixelFinder_new_def GTP_INVALID_def
        word_sless_alt promote_s16_def, simp_all add: far_sprite_def)
  have vals: "spr_width far_sprite = 1" "spr_height far_sprite = 1"
    "GetPixel far_sprite 5 7 = 9" "GetPixel far_sprite 0 0 = 0"
    by (simp_all add: far_sprite_def)
  from PixelFinder_samples_without_upper_bound
    [where svd = "\<lparr>ground_type = 0, ground_slope = 0\<rparr>" and store = far_store
       and pf = "example_finder 5 7" and spr = far_sprite and xpos = 0 and ypos = 0
       and zpos = 0 and xn = 0 and yn = 0 and xo = 5 and yo = 7]
    hyps
  have probe: "PixelFinder_probe far_store (example_finder 5 7)
      (VT_SURFACE \<lparr>ground_type = 0, ground_slope = 0\<rparr>) 0 0 0 0 0 = Some (far_sprite, 5, 7)"
    and visit: "PixelFinder_CollectVoxel far_store (example_finder 5 7)
      (VT_SURFACE \<lparr>ground_type = 0, ground_slope = 0\<rparr>) 0 0 0 0 0 =
        (if GetPixel far_sprite 5 7 = 0 then example_finder 5 7
         else (example_finder 5 7)\<lparr>distance := PixelFinder_dist (orient (example_finder 5 7)) 0 0 0,
                found := True, xvoxel := ucast (0 :: int32), yvoxel := ucast (0 :: int32),
                zvoxel := ucast (0 :: int32), pixel := GetPixel far_sprite 5 7\<rparr>)"
    by blast+
  from visit vals
  have "found (PixelFinder_CollectVoxel far_store (example_finder 5 7)
            (VT_SURFACE \<lparr>ground_type = 0, ground_slope = 0\<rparr>) 0 0 0 0 0)"
    and "pixel (PixelFinder_CollectVoxel far_store (example_finder 5 7)
            (VT_SURFACE \<lparr>ground_type = 0, ground_slope = 0\<rparr>) 0 0 0 0 0) = 9"
    by simp_all
  with hyps vals probe show ?thesis by blast
qed

section \<open>The scan of a column\<close>

lemma same_view_refl: "same_view a a"
  by (simp add: same_view_def)

lemma same_view_tests:
  assumes "same_view a b"
  shows "below_window a ny = below_window b ny"
    and "above_window a ny = above_window b ny"
    and "ComputeY a x y z = ComputeY b x y z"
    and "voxel_north_y a stack wx wy c = voxel_north_y b stack wx wy c"
proof -
  show "below_window a ny = below_window b ny" and "above_window a ny = above_window b ny"
    using assms by (simp_all add: same_view_def below_window_def above_window_def)
  show "ComputeY a x y z = ComputeY b x y z" for x y z
    using assms by (intro ComputeY_cong) (simp_all add: same_view_def)
  then show "voxel_north_y a stack wx wy c = voxel_north_y b stack wx wy c"
    by (simp only: voxel_north_y_def)
qed

lemma scan_from_done: "\<not> count < stack_height stack \<Longrightarrow> scan_from vc stack wx wy count = []"
  by (simp add: scan_from_def)

lemma scan_from_step:
  assumes "count < stack_height stack"
  shows "scan_from vc stack wx wy count =
    (if below_window vc (voxel_north_y vc stack wx wy count)
     then scan_from vc stack wx wy (Suc count)
     else if above_window vc (voxel_north_y vc stack wx wy count) then []
     else count # scan_from vc stack wx wy (Suc count))"
  using assms by (simp add: scan_from_def upt_conv_Cons)

lemma Collect_stack_is_fold:
  assumes keeps: "keeps_view visit"
    and view: "same_view vc vc0"
  shows "Collect_stack visit vc stack xpos ypos wx wy nx count =
    fold (visit_at visit vc0 stack xpos ypos wx wy nx) (scan_from vc0 stack wx wy count) vc"
  using view
proof (induction "stack_height stack - count" arbitrary: count vc)
  case 0
  then have "\<not> count < stack_height stack" by simp
  then show ?case
    by (subst Collect_stack.simps) (simp add: scan_from_done)
next
  case (Suc n)
  then have less: "count < stack_height stack" and n: "n = stack_height stack - Suc count"
    by simp_all
  let ?ny = "voxel_north_y vc0 stack wx wy count"
  have ny: "voxel_north_y vc stack wx wy count = ?ny"
    and below: "below_window vc ?ny = below_window vc0 ?ny"
    and above: "above_window vc ?ny = above_window vc0 ?ny"
    using Suc.prems by (simp_all add: same_view_tests)
  let ?vc' = "visit vc (voxels stack ! count) (of_nat xpos) (of_nat ypos)
      (voxel_zpos stack count) nx ?ny"
  have "same_view ?vc' vc" using keeps by (simp add: keeps_view_def)
  then have view': "same_view ?vc' vc0" using Suc.prems by (rule same_view_trans)
  have step: "Collect_stack visit vc stack xpos ypos wx wy nx count =
      (if below_window vc0 ?ny then Collect_stack visit vc stack xpos ypos wx wy nx (Suc count)
       else if above_window vc0 ?ny then vc
       else Collect_stack visit ?vc' stack xpos ypos wx wy nx (Suc count))"
    using less by (subst Collect_stack.simps) (simp only: ny below above if_True)
  have scan: "scan_from vc0 stack wx wy count =
      (if below_window vc0 ?ny then scan_from vc0 stack wx wy (Suc count)
       else if above_window vc0 ?ny then []
       else count # scan_from vc0 stack wx wy (Suc count))"
    using less by (rule scan_from_step)
  have ih: "Collect_stack visit vc stack xpos ypos wx wy nx (Suc count) =
      fold (visit_at visit vc0 stack xpos ypos wx wy nx) (scan_from vc0 stack wx wy (Suc count)) vc"
    using n Suc.prems by (rule Suc.hyps(1))
  have ih': "Collect_stack visit ?vc' stack xpos ypos wx wy nx (Suc count) =
      fold (visit_at visit vc0 stack xpos ypos wx wy nx) (scan_from vc0 stack wx wy (Suc count)) ?vc'"
    using n view' by (rule Suc.hyps(1))
  show ?case
  proof (cases "below_window vc0 ?ny")
    case True
    then show ?thesis by (simp only: step scan ih if_True)
  next
    case below: False
    show ?thesis
    proof (cases "above_window vc0 ?ny")
      case True
      with below show ?thesis by (simp only: step scan if_True if_False fold_simps)
    next
      case False
      with below have "Collect_stack visit vc stack xpos ypos wx wy nx count =
          fold (visit_at visit vc0 stack xpos ypos wx wy nx) (scan_from vc0 stack wx wy (Suc count)) ?vc'"
        by (simp only: step ih' if_False)
      moreover from below False have "scan_from vc0 stack wx wy count =
          count # scan_from vc0 stack wx wy (Suc count)"
        by (simp only: scan if_False)
      moreover have "visit_at visit vc0 stack xpos ypos wx wy nx count vc = ?vc'"
        by (simp only: visit_at_def)
      ultimately show ?thesis by (simp only: fold_simps)
    qed
  qed
qed

lemma takeWhile_upt_prefix:
  "x \<in> set (takeWhile Q [m..<n]) \<Longrightarrow> m \<le> y \<Longrightarrow> y \<le> x \<Longrightarrow> Q y"
proof (induction "n - m" arbitrary: m)
  case 0
  then show ?case by simp
next
  case (Suc d)
  then have less: "m < n" and d: "d = n - Suc m" by simp_all
  from Suc.prems(1) less have Qm: "Q m" and x: "x = m \<or> x \<in> set (takeWhile Q [Suc m..<n])"
    by (auto simp add: upt_conv_Cons split: if_splits)
  show ?case
  proof (cases "y = m")
    case True
    with Qm show ?thesis by simp
  next
    case False
    with Suc.prems have "Suc m \<le> y" "x \<noteq> m" by simp_all
    with x Suc.hyps(1) [OF d] Suc.prems(3) show ?thesis by blast
  qed
qed

lemma scan_from_sorted: "sorted_wrt (<) (scan_from vc stack wx wy count)"
proof -
  let ?Q = "\<lambda>c. below_window vc (voxel_north_y vc stack wx wy c)
      \<or> \<not> above_window vc (voxel_north_y vc stack wx wy c)"
  let ?xs = "[count..<stack_height stack]"
  have "sorted_wrt (<) ?xs" by (simp add: sorted_wrt_upt)
  then have "sorted_wrt (<) (take (length (takeWhile ?Q ?xs)) ?xs)"
    by (rule sorted_wrt_take)
  then have "sorted_wrt (<) (takeWhile ?Q ?xs)"
    by (simp only: takeWhile_eq_take [symmetric])
  then show ?thesis
    unfolding scan_from_def by (rule sorted_wrt_filter)
qed

lemma scan_from_bounds: "c \<in> set (scan_from vc stack wx wy count) \<Longrightarrow> c < stack_height stack"
  unfolding scan_from_def by (auto dest: set_takeWhileD)

lemma scan_from_not_below:
  "below_window vc (voxel_north_y vc stack wx wy c) \<Longrightarrow> c \<notin> set (scan_from vc stack wx wy count)"
  by (simp add: scan_from_def)

lemma scan_from_break:
  assumes "\<not> below_window vc (voxel_north_y vc stack wx wy c)"
    and "above_window vc (voxel_north_y vc stack wx wy c)"
    and "c \<le> c'"
  shows "c' \<notin> set (scan_from vc stack wx wy 0)"
proof
  assume "c' \<in> set (scan_from vc stack wx wy 0)"
  then have "c' \<in> set (takeWhile
      (\<lambda>c. below_window vc (voxel_north_y vc stack wx wy c)
            \<or> \<not> above_window vc (voxel_north_y vc stack wx wy c))
      [0..<stack_height stack])"
    by (simp add: scan_from_def)
  from takeWhile_upt_prefix [OF this _ assms(3)]
  have "below_window vc (voxel_north_y vc stack wx wy c)
      \<or> \<not> above_window vc (voxel_north_y vc stack wx wy c)"
    by simp
  with assms(1,2) show False by simp
qed

lemma Collect_stack_skip:
  assumes "count < stack_height stack"
    and "below_window vc (voxel_north_y vc stack wx wy count)"
  shows "Collect_stack visit vc stack xpos ypos wx wy nx count =
    Collect_stack visit vc stack xpos ypos wx wy nx (Suc count)"
  using assms by (subst Collect_stack.simps) simp

lemma Collect_stack_break:
  assumes "count < stack_height stack"
    and "\<not> below_window vc (voxel_north_y vc stack wx wy count)"
    and "above_window vc (voxel_north_y vc stack wx wy count)"
  shows "Collect_stack visit vc stack xpos ypos wx wy nx count = vc"
  using assms by (subst Collect_stack.simps) simp

lemma sint_int32_shr_range:
  "- 8388608 \<le> sint (int32_shr a 8)" "sint (int32_shr a 8) < 8388608"
  using sint_ge [of a] sint_lt [of a] by (simp_all add: sint_int32_shr)

lemma ComputeY_range: "- 8388608 \<le> sint (ComputeY vc x y z)" "sint (ComputeY vc x y z) < 8388608"
  by (cases "orient vc"; simp add: ComputeY_def sint_int32_shr_range)+

lemma uint16_range: "0 \<le> uint (w :: uint16)" "uint (w :: uint16) < 65536"
  using uint_lt2p [of w] by simp_all

lemma sint_half_width:
  "0 \<le> sint (int32_div (promote_u16 tw) 2)" "sint (int32_div (promote_u16 tw) 2) < 65536"
  using sdiv_pos_bounds [of 2 "uint tw"] uint16_range [of tw]
  by (simp_all add: sint_int32_div_2 sint_promote_u16)

lemma sint_below_side:
  assumes "- 8388608 \<le> sint ny" "sint ny < 8388608"
  shows "sint (ny - promote_u16 th) = sint ny - uint th"
proof -
  have "fits_int32 (sint ny - sint (promote_u16 th))"
    using assms uint16_range [of th] unfolding fits_int32_def sint_promote_u16 by linarith
  then show ?thesis using sint_sub_fits [of ny "promote_u16 th"] by (simp add: sint_promote_u16)
qed

lemma sint_above_side:
  assumes "- 8388608 \<le> sint ny" "sint ny < 8388608"
  shows "sint (ny + int32_div (promote_u16 tw) 2 + promote_u16 th) =
    sint ny + sint (int32_div (promote_u16 tw) 2) + uint th"
proof -
  let ?w = "int32_div (promote_u16 tw) 2"
  have "fits_int32 (sint ny + sint ?w)"
    using assms sint_half_width [of tw] unfolding fits_int32_def by linarith
  then have a: "sint (ny + ?w) = sint ny + sint ?w" by (rule sint_add_fits)
  have "fits_int32 (sint (ny + ?w) + sint (promote_u16 th))"
    using assms sint_half_width [of tw] uint16_range [of th]
    unfolding fits_int32_def a sint_promote_u16 by linarith
  then have "sint (ny + ?w + promote_u16 th) = sint (ny + ?w) + sint (promote_u16 th)"
    by (rule sint_add_fits)
  then show ?thesis by (simp only: a sint_promote_u16)
qed

lemma sint32_range: "- 2147483648 \<le> sint (a :: int32)" "sint (a :: int32) < 2147483648"
  using fits_sint [of a] by (simp_all add: fits_int32_def)

text \<open>The bottom of the window: the sum of corner and height, or a sum that wrapped around.\<close>

lemma sint_window_bottom:
  "sint (b + promote_u16 h) = sint b + uint h \<or> sint (b + promote_u16 h) \<le> - 2147418113"
proof (cases "sint b + uint h < 2147483648")
  case True
  then have "fits_int32 (sint b + sint (promote_u16 h))"
    using sint32_range [of b] uint16_range [of h] unfolding fits_int32_def sint_promote_u16
    by linarith
  then show ?thesis using sint_add_fits [of b "promote_u16 h"] by (simp add: sint_promote_u16)
next
  case False
  then have "2 ^ 31 \<le> sint b + uint h" by simp
  then have "signed_take_bit 31 (sint b + uint h) \<le> sint b + uint h - 2 ^ Suc 31"
    by (rule signed_take_bit_int_less_eq)
  moreover have "sint (b + promote_u16 h) = signed_take_bit 31 (sint b + uint h)"
    by (simp add: sint_word_ariths sint_promote_u16)
  ultimately have "sint (b + promote_u16 h) \<le> sint b + uint h - 4294967296" by simp
  then show ?thesis using sint32_range [of b] uint16_range [of h] by linarith
qed

lemma ComputeY_flat:
  "tile_height vc = 0 \<Longrightarrow> ComputeY vc x y z = ComputeY vc x y z'"
  by (cases "orient vc") (simp_all add: ComputeY_def promote_u16_def)

lemma below_and_above_all_below:
  assumes below: "below_window vc (ComputeY vc x y z)"
    and above: "above_window vc (ComputeY vc x y z)"
  shows "below_window vc (ComputeY vc x y z')"
proof -
  let ?b = "pt_y (rect_base (rect vc))"
  let ?R = "sint (?b + promote_u16 (rect_height (rect vc)))"
  let ?T = "uint (tile_height vc)"
  let ?W = "sint (int32_div (promote_u16 (tile_width vc)) 2)"
  let ?N = "sint (ComputeY vc x y z)"
  let ?N' = "sint (ComputeY vc x y z')"
  from below have b: "?R \<le> ?N - ?T"
    by (simp add: below_window_def word_sle_eq sint_below_side ComputeY_range)
  from above have a: "?N + ?W + ?T \<le> sint ?b"
    by (simp add: above_window_def word_sle_eq sint_above_side ComputeY_range)
  have goal: "below_window vc (ComputeY vc x y z') \<longleftrightarrow> ?R \<le> ?N' - ?T"
    by (simp add: below_window_def word_sle_eq sint_below_side ComputeY_range)
  from sint_window_bottom [of ?b "rect_height (rect vc)"] show ?thesis
  proof
    assume "?R = sint ?b + uint (rect_height (rect vc))"
    with a b sint_half_width(1) [of "tile_width vc"] uint16_range(1) [of "rect_height (rect vc)"]
      uint16_range(1) [of "tile_height vc"]
    have "?T = 0" by linarith
    then have "tile_height vc = 0" by (simp add: uint_0_iff)
    then have "ComputeY vc x y z' = ComputeY vc x y z" by (rule ComputeY_flat)
    with below show ?thesis by simp
  next
    assume "?R \<le> - 2147418113"
    with ComputeY_range(1) [of vc x y z'] uint16_range(2) [of "tile_height vc"]
    have "?R \<le> ?N' - ?T" by linarith
    with goal show ?thesis by simp
  qed
qed

lemma scan_from_above:
  assumes "above_window vc (voxel_north_y vc stack wx wy c)" and "c \<le> c'"
  shows "c' \<notin> set (scan_from vc stack wx wy 0)"
proof (cases "below_window vc (voxel_north_y vc stack wx wy c)")
  case False
  from this assms show ?thesis by (rule scan_from_break)
next
  case True
  from this assms(1) have "below_window vc (voxel_north_y vc stack wx wy c')"
    unfolding voxel_north_y_def by (rule below_and_above_all_below)
  then show ?thesis by (rule scan_from_not_below)
qed

lemma SpriteCollector_CollectVoxel_same_view:
  "same_view (SpriteCollector_CollectVoxel store sc voxel xpos ypos zpos xn yn) sc"
  by (cases voxel)
    (simp_all add: same_view_def SpriteCollector_CollectVoxel_def Let_def split: option.splits)

lemma collectors_keep_view:
  "keeps_view (SpriteCollector_CollectVoxel store)" "keeps_view (PixelFinder_CollectVoxel store)"
  by (simp_all add: keeps_view_def SpriteCollector_CollectVoxel_same_view
      PixelFinder_CollectVoxel_same_view)

lemma column_scan_is_fold:
  assumes "keeps_view visit"
  shows "Collect_stack visit vc stack xpos ypos wx wy nx 0 =
    fold (visit_at visit vc stack xpos ypos wx wy nx) (column_visits vc stack wx wy) vc"
  unfolding column_visits_def using assms same_view_refl by (rule Collect_stack_is_fold)

text \<open>
  Claim C3. The scan of a column, for the sprite collector and for the pixel finder, is the
  sequence of calls of \<^verbatim>\<open>CollectVoxel\<close> for the indices of \<open>column_visits\<close>, which are in strictly
  ascending order, bottom to top. A voxel whose screen position minus the tile height is at or
  below the bottom of the window is not visited, and the scan goes on with the next voxel. At a
  voxel whose screen position plus half the tile width plus the tile height is at or above the
  top of the window, neither this voxel nor any voxel higher in the stack is visited; when the
  voxel is not below the window as well, the scan ends there.
\<close>

theorem column_scan_bottom_to_top:
  "Collect_stack (SpriteCollector_CollectVoxel store) sc stack xpos ypos wx wy nx 0 =
     fold (visit_at (SpriteCollector_CollectVoxel store) sc stack xpos ypos wx wy nx)
       (column_visits sc stack wx wy) sc \<and>
   Collect_stack (PixelFinder_CollectVoxel store) pf stack xpos ypos wx wy nx 0 =
     fold (visit_at (PixelFinder_CollectVoxel store) pf stack xpos ypos wx wy nx)
       (column_visits pf stack wx wy) pf \<and>
   sorted_wrt (<) (column_visits vc stack wx wy) \<and>
   (\<forall>c \<in> set (column_visits vc stack wx wy). c < stack_height stack) \<and>
   (c < stack_height stack \<and> below_window vc (voxel_north_y vc stack wx wy c) \<longrightarrow>
      c \<notin> set (column_visits vc stack wx wy) \<and>
      Collect_stack visit vc stack xpos ypos wx wy nx c =
        Collect_stack visit vc stack xpos ypos wx wy nx (Suc c)) \<and>
   (c < stack_height stack \<and> above_window vc (voxel_north_y vc stack wx wy c) \<longrightarrow>
      (\<forall>c' \<ge> c. c' \<notin> set (column_visits vc stack wx wy)) \<and>
      (\<not> below_window vc (voxel_north_y vc stack wx wy c) \<longrightarrow>
         Collect_stack visit vc stack xpos ypos wx wy nx c = vc))"
proof -
  have "\<forall>c \<in> set (column_visits vc stack wx wy). c < stack_height stack"
    unfolding column_visits_def by (blast dest: scan_from_bounds)
  moreover have "above_window vc (voxel_north_y vc stack wx wy c) \<Longrightarrow>
      \<forall>c' \<ge> c. c' \<notin> set (column_visits vc stack wx wy)"
    unfolding column_visits_def by (blast dest: scan_from_above)
  moreover have "sorted_wrt (<) (column_visits vc stack wx wy)"
    unfolding column_visits_def by (rule scan_from_sorted)
  moreover have "below_window vc (voxel_north_y vc stack wx wy c) \<Longrightarrow>
      c \<notin> set (column_visits vc stack wx wy)"
    unfolding column_visits_def by (rule scan_from_not_below)
  ultimately show ?thesis
    using column_scan_is_fold [OF collectors_keep_view(1), of store sc stack xpos ypos wx wy nx]
      column_scan_is_fold [OF collectors_keep_view(2), of store pf stack xpos ypos wx wy nx]
      Collect_stack_skip [of c stack vc wx wy visit xpos ypos nx]
      Collect_stack_break [of c stack vc wx wy visit xpos ypos nx]
    by blast
qed

lemma scan_example_north_y:
  "voxel_north_y scan_collector scan_stack 0 0 0 = 0"
  "voxel_north_y scan_collector scan_stack 0 0 (Suc 0) = - 100"
  "voxel_north_y scan_collector scan_stack 0 0 2 = - 200"
  "voxel_north_y scan_collector scan_stack 0 0 3 = - 300"
  "voxel_north_y scan_collector scan_stack 0 0 4 = - 400"
  by (simp_all add: voxel_north_y_def voxel_zpos_def scan_collector_def scan_stack_def
      PixelFinder_new_def ComputeY_def promote_s16_def promote_u16_def int32_div_def int32_shr_def
      signed_divide_int_def)

lemma scan_example_tests:
  "below_window scan_collector 0"
  "\<not> below_window scan_collector (- 100)" "\<not> above_window scan_collector (- 100)"
  "\<not> below_window scan_collector (- 200)" "\<not> above_window scan_collector (- 200)"
  "\<not> below_window scan_collector (- 300)" "above_window scan_collector (- 300)"
  by (simp_all add: below_window_def above_window_def scan_collector_def PixelFinder_new_def
      promote_u16_def int32_div_def signed_divide_int_def word_sle_eq)

lemma scan_example_visits: "column_visits scan_collector scan_stack 0 0 = [1, 2]"
proof -
  have "stack_height scan_stack = 5" by (simp add: stack_height_def scan_stack_def)
  moreover have "[0..<5] = [0, 1, 2, 3, 4]" by (simp add: upt_rec)
  ultimately show ?thesis
    by (simp add: column_visits_def scan_from_def scan_example_north_y scan_example_tests)
qed

theorem column_scan_bottom_to_top_witness:
  "0 < stack_height scan_stack \<and>
   below_window scan_collector (voxel_north_y scan_collector scan_stack 0 0 0) \<and>
   3 < stack_height scan_stack \<and>
   above_window scan_collector (voxel_north_y scan_collector scan_stack 0 0 3) \<and>
   \<not> below_window scan_collector (voxel_north_y scan_collector scan_stack 0 0 3) \<and>
   column_visits scan_collector scan_stack 0 0 = [1, 2] \<and>
   0 \<notin> set (column_visits scan_collector scan_stack 0 0) \<and>
   3 \<notin> set (column_visits scan_collector scan_stack 0 0) \<and>
   4 \<notin> set (column_visits scan_collector scan_stack 0 0) \<and>
   Collect_stack (PixelFinder_CollectVoxel example_store) scan_collector scan_stack 0 0 0 0 0 0 =
     Collect_stack (PixelFinder_CollectVoxel example_store) scan_collector scan_stack 0 0 0 0 0
       (Suc 0) \<and>
   Collect_stack (PixelFinder_CollectVoxel example_store) scan_collector scan_stack 0 0 0 0 0 3 =
     scan_collector"
proof -
  have hyps:
    "0 < stack_height scan_stack"
    "below_window scan_collector (voxel_north_y scan_collector scan_stack 0 0 0)"
    "3 < stack_height scan_stack"
    "above_window scan_collector (voxel_north_y scan_collector scan_stack 0 0 3)"
    "\<not> below_window scan_collector (voxel_north_y scan_collector scan_stack 0 0 3)"
    by (simp_all add: scan_example_north_y scan_example_tests)
      (simp_all add: stack_height_def scan_stack_def)
  show ?thesis
    using hyps scan_example_visits
      column_scan_bottom_to_top
        [where vc = scan_collector and stack = scan_stack and wx = 0 and wy = 0 and c = 0
           and visit = "PixelFinder_CollectVoxel example_store" and xpos = 0 and ypos = 0 and nx = 0]
      column_scan_bottom_to_top
        [where vc = scan_collector and stack = scan_stack and wx = 0 and wy = 0 and c = 3
           and visit = "PixelFinder_CollectVoxel example_store" and xpos = 0 and ypos = 0 and nx = 0]
    by simp
qed

end
